theory Spec2Isabelle
  imports Main "HOL-Library.Sublist" "HOL-Library.Multiset"
begin

section \<open>Strings\<close>

text \<open>
  A Python \<open>str\<close> is a sequence of Unicode code points, and \<open>len\<close>, slicing, \<open>replace\<close>,
  \<open>strip\<close> and \<open>re\<close> all work on code points. A string is modelled as the list of its
  code points; the literals of \<open>main.py\<close> are written out as such lists.
\<close>

type_synonym ustr = "nat list"

text \<open>The score unit of the pattern \<open>(\d{1,3})\<close> followed by U+70B9.\<close>

definition score_unit :: nat where
  "score_unit = 28857"

subsection \<open>\<open>str.replace\<close> and \<open>str.strip\<close>\<close>

text \<open>
  \<open>s.replace(old, new)\<close> scans \<open>s\<close> once from the left and replaces the non-overlapping
  occurrences of \<open>old\<close>; the text produced by a replacement is not scanned again. With an
  empty \<open>old\<close> Python puts \<open>new\<close> before every character and at the end.
\<close>

fun replace_scan :: "ustr \<Rightarrow> ustr \<Rightarrow> ustr \<Rightarrow> ustr" where
  "replace_scan old new [] = []"
| "replace_scan old new (c # s) =
     (if take (length old) (c # s) = old
      then new @ replace_scan old new (drop (length old - 1) s)
      else c # replace_scan old new s)"

definition replace :: "ustr \<Rightarrow> ustr \<Rightarrow> ustr \<Rightarrow> ustr" where
  "replace old new s =
     (if old = [] then new @ concat (map (\<lambda>c. c # new) s) else replace_scan old new s)"

text \<open>
  \<open>str.strip()\<close> without argument removes the characters for which \<open>str.isspace\<close> holds
  from both ends: U+0009..U+000D, U+001C..U+0020, U+0085, U+00A0, U+1680, U+2000..U+200A,
  U+2028, U+2029, U+202F, U+205F and U+3000.
\<close>

definition isspace :: "nat \<Rightarrow> bool" where
  "isspace c \<longleftrightarrow>
     (9 \<le> c \<and> c \<le> 13) \<or> (28 \<le> c \<and> c \<le> 32) \<or> c = 133 \<or> c = 160 \<or> c = 5760 \<or>
     (8192 \<le> c \<and> c \<le> 8202) \<or> c = 8232 \<or> c = 8233 \<or> c = 8239 \<or> c = 8287 \<or> c = 12288"

definition strip :: "ustr \<Rightarrow> ustr" where
  "strip s = rev (dropWhile isspace (rev (dropWhile isspace s)))"

text \<open>Line 115: \<open>result.replace("\n", " ").replace("  ", " ").strip()\<close>.\<close>

definition clean_result :: "ustr \<Rightarrow> ustr" where
  "clean_result result = strip (replace [32, 32] [32] (replace [10] [32] result))"

subsection \<open>Decimal digits, \<open>int\<close> and \<open>re.search\<close>\<close>

text \<open>
  In a \<open>str\<close> pattern \<open>\d\<close> matches every Unicode decimal digit (the ASCII digits, the
  full-width digits U+FF10..U+FF19, the Arabic-Indic digits, ...), and \<open>int\<close> accepts the
  same characters. Which code points are decimal digits, and with which value, is a table
  of the interpreter's Unicode database and not of \<open>main.py\<close>; the model takes it as the
  parameter \<open>dv\<close>: \<open>dv c = Some d\<close> when \<open>c\<close> is a decimal digit of value \<open>d\<close>.
  \<open>ascii_digits\<close> is the part of that table below U+0080.
\<close>

type_synonym digit_table = "nat \<Rightarrow> nat option"

definition ascii_digits :: digit_table where
  "ascii_digits c = (if 48 \<le> c \<and> c \<le> 57 then Some (c - 48) else None)"

definition is_digit :: "digit_table \<Rightarrow> nat \<Rightarrow> bool" where
  "is_digit dv c \<longleftrightarrow> dv c \<noteq> None"

datatype exn =
    AttributeError | TypeError | KeyError | ValueError | OverflowError
  | RequestException | JSONDecodeError | OpenAIError | DatabaseError

text \<open>\<open>int(s)\<close> on a string: the decimal value, \<open>ValueError\<close> on the empty string and on
  any character that is no decimal digit.\<close>

fun int_digits :: "digit_table \<Rightarrow> int \<Rightarrow> ustr \<Rightarrow> exn + int" where
  "int_digits dv acc [] = Inr acc"
| "int_digits dv acc (c # s) =
     (case dv c of None \<Rightarrow> Inl ValueError | Some d \<Rightarrow> int_digits dv (acc * 10 + int d) s)"

definition py_int :: "digit_table \<Rightarrow> ustr \<Rightarrow> exn + int" where
  "py_int dv s = (if s = [] then Inl ValueError else int_digits dv 0 s)"

text \<open>
  \<open>re.search(r"(\d{1,3})<unit>", s)\<close>. At a start position the greedy \<open>\d{1,3}\<close> takes as many
  digits as there are, at most three (\<open>digit_run\<close>); the engine then needs the unit as next
  character and, if it is not there, gives digits back one at a time (\<open>backtrack\<close>). A start
  position where this fails is followed by the next one (\<open>re_search\<close>). The result is
  \<open>match.group(1)\<close>, or \<open>None\<close>.
\<close>

fun digit_run :: "digit_table \<Rightarrow> nat \<Rightarrow> ustr \<Rightarrow> nat" where
  "digit_run dv 0 s = 0"
| "digit_run dv (Suc n) [] = 0"
| "digit_run dv (Suc n) (c # s) = (if is_digit dv c then Suc (digit_run dv n s) else 0)"

fun backtrack :: "nat \<Rightarrow> ustr \<Rightarrow> ustr option" where
  "backtrack 0 s = None"
| "backtrack (Suc k) s =
     (if Suc k < length s \<and> s ! Suc k = score_unit then Some (take (Suc k) s)
      else backtrack k s)"

definition match_at :: "digit_table \<Rightarrow> ustr \<Rightarrow> ustr option" where
  "match_at dv s = backtrack (digit_run dv 3 s) s"

fun re_search :: "digit_table \<Rightarrow> ustr \<Rightarrow> ustr option" where
  "re_search dv [] = None"
| "re_search dv (c # s) =
     (case match_at dv (c # s) of Some g \<Rightarrow> Some g | None \<Rightarrow> re_search dv s)"

text \<open>Lines 140-141: \<open>score = int(match.group(1)) if match else None\<close>.\<close>

definition extract_score :: "digit_table \<Rightarrow> ustr \<Rightarrow> exn + int option" where
  "extract_score dv evaluation =
     (case re_search dv evaluation of
        None \<Rightarrow> Inr None
      | Some g \<Rightarrow> (case py_int dv g of Inl e \<Rightarrow> Inl e | Inr n \<Rightarrow> Inr (Some n)))"


section \<open>The literals of \<open>main.py\<close>\<close>

definition key_tags :: ustr where
  \<comment> \<open>the key 'tags'\<close>
  "key_tags =
     [116, 97, 103, 115]"

definition key_name :: ustr where
  \<comment> \<open>the key 'name'\<close>
  "key_name =
     [110, 97, 109, 101]"

definition key_likes_count :: ustr where
  \<comment> \<open>the key 'likes_count'\<close>
  "key_likes_count =
     [108, 105, 107, 101, 115, 95, 99, 111, 117, 110, 116]"

definition key_comments_count :: ustr where
  \<comment> \<open>the key 'comments_count'\<close>
  "key_comments_count =
     [99, 111, 109, 109, 101, 110, 116, 115, 95, 99, 111, 117, 110, 116]"

definition key_body :: ustr where
  \<comment> \<open>the key 'body'\<close>
  "key_body =
     [98, 111, 100, 121]"

definition key_title :: ustr where
  \<comment> \<open>the key 'title'\<close>
  "key_title =
     [116, 105, 116, 108, 101]"

definition key_id :: ustr where
  \<comment> \<open>the key 'id'\<close>
  "key_id =
     [105, 100]"

definition comma_space :: ustr where
  \<comment> \<open>the separator ', ' of line 51\<close>
  "comma_space =
     [44, 32]"

definition history_header :: ustr where
  \<comment> \<open>the literal of line 60 (19 characters, the last a newline)\<close>
  "history_header =
     [12304, 12371, 12428, 12414, 12391, 12398, 35413, 20385, 23653, 27508, 65288, 26368,
      26032, 8594, 36942, 21435, 65289, 12305, 10]"

definition line_bullet :: ustr where
  \<comment> \<open>line 62, before the index: U+30FB\<close>
  "line_bullet =
     [12539]"

definition line_score :: ustr where
  \<comment> \<open>line 62, between the index and the score (11 characters)\<close>
  "line_score =
     [22238, 21069, 12398, 35413, 20385, 58, 32, 12473, 12467, 12450, 32]"

definition line_summary :: ustr where
  \<comment> \<open>line 62, between the score and the review: the score unit U+70B9 and 6 more\<close>
  "line_summary =
     [28857, 44, 32, 35201, 32004, 58, 32]"

definition line_end :: ustr where
  \<comment> \<open>line 62, after the review: '...' and a newline\<close>
  "line_end =
     [46, 46, 46, 10]"

definition history_footer :: ustr where
  \<comment> \<open>the literal of line 63 (41 characters)\<close>
  "history_footer =
     [20170, 22238, 12398, 35413, 20385, 12391, 12399, 12371, 12428, 12414, 12391, 12398,
      23653, 27508, 12392, 27604, 36611, 12375, 12390, 25104, 38263, 28857, 12420, 25913,
      21892, 28857, 12434, 21547, 12417, 12390, 12467, 12513, 12531, 12488, 12375, 12390,
      12367, 12384, 12373, 12356, 12290]"

definition first_evaluation :: ustr where
  \<comment> \<open>the literal of line 65 (28 characters)\<close>
  "first_evaluation =
     [20170, 22238, 12364, 21021, 12417, 12390, 12398, 35413, 20385, 12394, 12398, 12391,
      12289, 25391, 12426, 36820, 12426, 12467, 12513, 12531, 12488, 12399, 12354, 12426,
      12414, 12379, 12435, 12290]"

definition prompt_0 :: ustr where
  \<comment> \<open>the prompt literal of lines 69-105, up to the title (366 characters)\<close>
  "prompt_0 =
     [10, 20197, 19979, 12398, 81, 105, 105, 116, 97, 35352, 20107, 12395, 12388, 12356,
      12390, 49, 48, 48, 28857, 28288, 28857, 12391, 35413, 20385, 12375, 12289, 29702,
      30001, 12434, 28155, 12360, 12390, 12367, 12384, 12373, 12356, 12290, 12373, 12425,
      12395, 12289, 20197, 19979, 12398, 35413, 20385, 12509, 12452, 12531, 12488, 12395,
      24467, 12387, 12390, 12367, 12384, 12373, 12356, 12290, 10, 10, 12304, 35413, 20385,
      12509, 12452, 12531, 12488, 12305, 10, 45, 32, 35501, 12415, 12420, 12377, 12373,
      65288, 21021, 24515, 32773, 12395, 12418, 12431, 12363, 12426, 12420, 12377, 12356,
      12363, 65289, 10, 45, 32, 35542, 29702, 24615, 65288, 35211, 20986, 12375, 27083,
      36896, 12289, 27969, 12428, 65289, 10, 45, 32, 24773, 22577, 12398, 32178, 32645,
      24615, 10, 45, 32, 23455, 29992, 24615, 65288, 24441, 31435, 12388, 24773, 22577,
      12363, 12393, 12358, 12363, 65289, 10, 45, 32, 20154, 27671, 24230, 65288, 76, 71, 84,
      77, 25968, 12289, 12467, 12513, 12531, 12488, 25968, 65289, 10, 45, 32, 35500, 26126,
      12398, 28145, 12373, 65288, 32972, 26223, 12420, 20181, 32068, 12415, 12398, 29702,
      35299, 12434, 21161, 12369, 12427, 20869, 23481, 12364, 12354, 12427, 12363, 65289,
      10, 45, 32, 29420, 33258, 24615, 65288, 20182, 12398, 35352, 20107, 12395, 12399,
      12394, 12356, 24037, 22827, 12420, 12450, 12452, 12487, 12450, 12364, 12354, 12427,
      12363, 65289, 10, 10, 12414, 12383, 12289, 20197, 19979, 12398, 51, 12388, 12398,
      12523, 12540, 12523, 12364, 23432, 12425, 12428, 12390, 12356, 12427, 12363, 24517,
      12378, 30906, 35469, 12375, 12289, 42, 42, 23432, 12425, 12428, 12390, 12356, 12394,
      12356, 22580, 21512, 12399, 24517, 12378, 25351, 25688, 12375, 12390, 12367, 12384,
      12373, 12356, 42, 42, 58, 10, 45, 32, 42, 42, 35352, 20107, 12479, 12452, 12488,
      12523, 12395, 12300, 20309, 12398, 12383, 12417, 12395, 12301, 12300, 20309, 12434,
      35299, 27770, 12375, 12383, 12356, 12363, 12301, 12398, 30446, 30340, 24847, 35672,
      12364, 31034, 12373, 12428, 12390, 12356, 12427, 12363, 42, 42, 10, 45, 32, 42, 42,
      35352, 20107, 12398, 12479, 12464, 12364, 51, 12388, 20197, 19978, 35373, 23450,
      12373, 12428, 12390, 12356, 12427, 12363, 42, 42, 10, 45, 32, 42, 42, 12510, 12540,
      12463, 12480, 12454, 12531, 24418, 24335, 12391, 27491, 12375, 12367, 35352, 36617,
      12373, 12428, 12390, 12356, 12427, 12363, 42, 42, 10, 10, 12304, 12479, 12452, 12488,
      12523, 12305, 10]"

definition prompt_1 :: ustr where
  \<comment> \<open>the prompt literal of lines 69-105, between title and body\<close>
  "prompt_1 =
     [10, 10, 12304, 26412, 25991, 12305, 10]"

definition prompt_2 :: ustr where
  \<comment> \<open>the prompt literal of lines 69-105, between body and body length\<close>
  "prompt_2 =
     [10, 10, 12304, 35036, 36275, 12487, 12540, 12479, 12305, 10, 45, 32, 25991, 23383,
      25968, 58, 32]"

definition prompt_3 :: ustr where
  \<comment> \<open>the prompt literal of lines 69-105, between body length and like count\<close>
  "prompt_3 =
     [25991, 23383, 10, 45, 32, 76, 71, 84, 77, 25968, 58, 32]"

definition prompt_4 :: ustr where
  \<comment> \<open>the prompt literal of lines 69-105, between like count and comment count\<close>
  "prompt_4 =
     [10, 45, 32, 12467, 12513, 12531, 12488, 25968, 58, 32]"

definition prompt_5 :: ustr where
  \<comment> \<open>the prompt literal of lines 69-105, between comment count and tags\<close>
  "prompt_5 =
     [10, 45, 32, 12479, 12464, 58, 32]"

definition prompt_6 :: ustr where
  \<comment> \<open>the prompt literal of lines 69-105, between tags and history prompt\<close>
  "prompt_6 =
     [10, 10]"

definition prompt_7 :: ustr where
  \<comment> \<open>the prompt literal of lines 69-105, after the history prompt (176 characters)\<close>
  "prompt_7 =
     [10, 10, 35413, 20385, 32080, 26524, 12399, 20197, 19979, 12398, 24418, 24335, 12391,
      36820, 12375, 12390, 12367, 12384, 12373, 12356, 12290, 10, 12539, 28857, 25968,
      65288, 49, 48, 48, 28857, 28288, 28857, 65289, 10, 12539, 29702, 30001, 65288, 31623,
      26465, 26360, 12365, 12391, 51, 12388, 20197, 19978, 65289, 10, 12539, 25913, 21892,
      28857, 65288, 31623, 26465, 26360, 12365, 12391, 51, 12388, 20197, 19978, 65289, 10,
      12539, 25391, 12426, 36820, 12426, 12467, 12513, 12531, 12488, 65288, 36942, 21435,
      12398, 35413, 20385, 12364, 12354, 12427, 22580, 21512, 12399, 12300, 21069, 22238,
      12392, 27604, 36611, 12375, 12390, 8230, 12301, 12398, 12424, 12358, 12395, 12289,
      36942, 21435, 12487, 12540, 12479, 12392, 27604, 36611, 12375, 12383, 12467, 12513,
      12531, 12488, 12434, 21547, 12417, 12390, 12367, 12384, 12373, 12356, 12290, 36942,
      21435, 12398, 35413, 20385, 12364, 12394, 12356, 22580, 21512, 12399, 12300, 20170,
      22238, 12364, 21021, 12417, 12390, 12398, 35413, 20385, 12394, 12398, 12391, 12289,
      25391, 12426, 36820, 12426, 12467, 12513, 12531, 12488, 12399, 12354, 12426, 12414,
      12379, 12435, 12301, 12392, 35352, 36617, 12375, 12390, 12367, 12384, 12373, 12356,
      12290, 65289, 10]"

definition article_error :: ustr where
  \<comment> \<open>the message of line 134 (31 characters)\<close>
  "article_error =
     [81, 105, 105, 116, 97, 35352, 20107, 12364, 21462, 24471, 12391, 12365, 12414, 12379,
      12435, 12391, 12375, 12383, 12290, 73, 68, 12434, 30906, 35469, 12375, 12390, 12367,
      12384, 12373, 12356, 12290]"

definition unexpected_error :: ustr where
  \<comment> \<open>the message of line 156 (16 characters)\<close>
  "unexpected_error =
     [20104, 26399, 12375, 12394, 12356, 12456, 12521, 12540, 12364, 30330, 29983, 12375,
      12414, 12375, 12383, 12290]"

definition history_error :: ustr where
  \<comment> \<open>the message of line 175 (17 characters)\<close>
  "history_error =
     [23653, 27508, 21462, 24471, 26178, 12395, 12456, 12521, 12540, 12364, 30330, 29983,
      12375, 12414, 12375, 12383, 12290]"

definition str_None :: ustr where
  \<comment> \<open>'None'\<close>
  "str_None =
     [78, 111, 110, 101]"

definition str_True :: ustr where
  \<comment> \<open>'True'\<close>
  "str_True =
     [84, 114, 117, 101]"

definition str_False :: ustr where
  \<comment> \<open>'False'\<close>
  "str_False =
     [70, 97, 108, 115, 101]"

section \<open>Python values\<close>

text \<open>
  \<open>response.json()\<close> yields \<open>None\<close>, a \<open>bool\<close>, an \<open>int\<close>, a \<open>float\<close>, a \<open>str\<close>, a
  \<open>list\<close> or a \<open>dict\<close>. Python's integers are unbounded. Of a float the program looks at
  nothing but whether it is zero (truthiness) and hands it on to \<open>str\<close> and to SQLite; it is
  kept as sign, mantissa and binary exponent, or as an infinity or a NaN. A \<open>dict\<close> is the
  list of its items, in the order of the dictionary, with distinct keys.
\<close>

datatype pyfloat = Finite bool nat int | Infinity bool | NaN

datatype json =
    JNull | JBool bool | JInt int | JFloat pyfloat | JStr ustr
  | JArr "json list" | JObj "(ustr \<times> json) list"

fun float_is_zero :: "pyfloat \<Rightarrow> bool" where
  "float_is_zero (Finite negative mantissa exponent) \<longleftrightarrow> mantissa = 0"
| "float_is_zero (Infinity negative) \<longleftrightarrow> False"
| "float_is_zero NaN \<longleftrightarrow> False"

text \<open>The truth value that \<open>if not article\<close> tests.\<close>

fun truthy :: "json \<Rightarrow> bool" where
  "truthy JNull \<longleftrightarrow> False"
| "truthy (JBool b) \<longleftrightarrow> b"
| "truthy (JInt i) \<longleftrightarrow> i \<noteq> 0"
| "truthy (JFloat f) \<longleftrightarrow> \<not> float_is_zero f"
| "truthy (JStr s) \<longleftrightarrow> s \<noteq> []"
| "truthy (JArr xs) \<longleftrightarrow> xs \<noteq> []"
| "truthy (JObj kvs) \<longleftrightarrow> kvs \<noteq> []"

text \<open>Exceptions are values: a computation that may raise returns \<open>exn + 'a\<close>, and
  \<open>bind_exn\<close> runs the rest of the statements only when nothing was raised.\<close>

definition bind_exn :: "exn + 'a \<Rightarrow> ('a \<Rightarrow> exn + 'b) \<Rightarrow> exn + 'b" where
  "bind_exn m f = (case m of Inl e \<Rightarrow> Inl e | Inr x \<Rightarrow> f x)"

text \<open>\<open>article.get(key, default)\<close>: only a \<open>dict\<close> has the method.\<close>

fun get :: "json \<Rightarrow> ustr \<Rightarrow> json \<Rightarrow> exn + json" where
  "get (JObj kvs) key dflt = Inr (case map_of kvs key of None \<Rightarrow> dflt | Some v \<Rightarrow> v)"
| "get _ key dflt = Inl AttributeError"

text \<open>\<open>for tag in v\<close>: a list gives its elements, a string its characters, a \<open>dict\<close> its
  keys; nothing else is iterable.\<close>

fun iterate :: "json \<Rightarrow> exn + json list" where
  "iterate (JArr xs) = Inr xs"
| "iterate (JStr s) = Inr (map (\<lambda>c. JStr [c]) s)"
| "iterate (JObj kvs) = Inr (map (\<lambda>kv. JStr (fst kv)) kvs)"
| "iterate _ = Inl TypeError"

text \<open>\<open>tag['name']\<close>: a \<open>dict\<close> without the key raises \<open>KeyError\<close>; strings and lists take
  integer indices only; the other values cannot be subscripted.\<close>

fun tag_name :: "json \<Rightarrow> exn + json" where
  "tag_name (JObj kvs) = (case map_of kvs key_name of None \<Rightarrow> Inl KeyError | Some v \<Rightarrow> Inr v)"
| "tag_name _ = Inl TypeError"

text \<open>A list comprehension whose body may raise stops at the first exception.\<close>

fun collect :: "('a \<Rightarrow> exn + 'b) \<Rightarrow> 'a list \<Rightarrow> exn + 'b list" where
  "collect f [] = Inr []"
| "collect f (x # xs) =
     bind_exn (f x) (\<lambda>y. bind_exn (collect f xs) (\<lambda>ys. Inr (y # ys)))"

text \<open>\<open>sep.join(xs)\<close> needs every item to be a \<open>str\<close>.\<close>

fun as_str :: "json \<Rightarrow> exn + ustr" where
  "as_str (JStr s) = Inr s"
| "as_str _ = Inl TypeError"

fun join_strs :: "ustr \<Rightarrow> ustr list \<Rightarrow> ustr" where
  "join_strs sep [] = []"
| "join_strs sep [x] = x"
| "join_strs sep (x # y # ys) = x @ sep @ join_strs sep (y # ys)"

definition join :: "ustr \<Rightarrow> json list \<Rightarrow> exn + ustr" where
  "join sep xs = bind_exn (collect as_str xs) (\<lambda>strs. Inr (join_strs sep strs))"

text \<open>\<open>len\<close> is defined on strings, lists and dictionaries.\<close>

fun len :: "json \<Rightarrow> exn + nat" where
  "len (JStr s) = Inr (length s)"
| "len (JArr xs) = Inr (length xs)"
| "len (JObj kvs) = Inr (length kvs)"
| "len _ = Inl TypeError"

text \<open>
  What an f-string puts in for a value is \<open>str\<close> of it. For \<open>None\<close>, booleans, integers and
  strings that is written out here; \<open>str\<close> of a float, a list or a \<open>dict\<close> (shortest
  round-trip digits, quoting and escaping of the nested strings) is left to the
  interpreter and is the parameter \<open>repr\<close>.
\<close>

fun digits_of :: "nat \<Rightarrow> ustr" where
  "digits_of n = (if n < 10 then [48 + n] else digits_of (n div 10) @ [48 + n mod 10])"

declare digits_of.simps [simp del]

definition str_int :: "int \<Rightarrow> ustr" where
  "str_int i = (if i < 0 then 45 # digits_of (nat (- i)) else digits_of (nat i))"

fun str :: "(json \<Rightarrow> ustr) \<Rightarrow> json \<Rightarrow> ustr" where
  "str repr JNull = str_None"
| "str repr (JBool b) = (if b then str_True else str_False)"
| "str repr (JInt i) = str_int i"
| "str repr (JStr s) = s"
| "str repr v = repr v"

text \<open>The \<open>{score}\<close> of line 62: a score read from the table is an integer or \<open>None\<close>.\<close>

definition str_score :: "int option \<Rightarrow> ustr" where
  "str_score sc = (case sc of None \<Rightarrow> str_None | Some n \<Rightarrow> str_int n)"


section \<open>The article fetcher\<close>

text \<open>
  The content API is an input of the model: for an article identifier, \<open>requests.get\<close>
  either raises (no connection) or gives a response with a status code and a body, and
  \<open>response.json()\<close> raises when the body is not JSON.
\<close>

datatype body = Unparsable | Parsed json

datatype http = ConnectionFailed | Response nat body

text \<open>Lines 40-47. \<open>None\<close> is the value returned for a status other than 200.\<close>

definition get_qiita_article :: "(ustr \<Rightarrow> http) \<Rightarrow> ustr \<Rightarrow> exn + json option" where
  "get_qiita_article api article_id =
     (case api article_id of
        ConnectionFailed \<Rightarrow> Inl RequestException
      | Response status_code b \<Rightarrow>
          if status_code \<noteq> 200 then Inr None
          else (case b of Unparsable \<Rightarrow> Inl JSONDecodeError | Parsed v \<Rightarrow> Inr (Some v)))"

section \<open>The prompt builder and the evaluation service\<close>

text \<open>
  Lines 59-65. \<open>past_reviews\<close> is the list of \<open>(score, review)\<close> rows of the user, oldest
  first. The loop runs over \<open>enumerate(reversed(past_reviews), 1)\<close> and appends one line
  per entry to the string built so far.
\<close>

definition history_line :: "nat \<Rightarrow> int option \<Rightarrow> ustr \<Rightarrow> ustr" where
  "history_line idx sc rv =
     line_bullet @ digits_of idx @ line_score @ str_score sc @ line_summary @ take 100 rv @ line_end"

fun history_loop :: "nat \<Rightarrow> (int option \<times> ustr) list \<Rightarrow> ustr \<Rightarrow> ustr" where
  "history_loop idx [] history_prompt = history_prompt"
| "history_loop idx ((sc, rv) # rest) history_prompt =
     history_loop (Suc idx) rest (history_prompt @ history_line idx sc rv)"

definition history_prompt :: "(int option \<times> ustr) list \<Rightarrow> ustr" where
  "history_prompt past_reviews =
     (if past_reviews \<noteq> []
      then history_loop 1 (rev past_reviews) history_header @ history_footer
      else first_evaluation)"

text \<open>Lines 51-56 and 69-105: the fields of the article and the prompt.\<close>

definition build_prompt :: "(json \<Rightarrow> ustr) \<Rightarrow> json \<Rightarrow> (int option \<times> ustr) list \<Rightarrow> exn + ustr" where
  "build_prompt repr article past_reviews =
     bind_exn (get article key_tags (JArr [])) (\<lambda>tag_list.
     bind_exn (iterate tag_list) (\<lambda>tag_items.
     bind_exn (collect tag_name tag_items) (\<lambda>names.
     bind_exn (join comma_space names) (\<lambda>tags.
     bind_exn (get article key_likes_count (JInt 0)) (\<lambda>lgtm_count.
     bind_exn (get article key_comments_count (JInt 0)) (\<lambda>comments_count.
     bind_exn (get article key_body (JStr [])) (\<lambda>body0.
     bind_exn (len body0) (\<lambda>body_length.
     bind_exn (get article key_title (JStr [])) (\<lambda>title.
     bind_exn (get article key_body (JStr [])) (\<lambda>body.
     Inr (prompt_0 @ str repr title @ prompt_1 @ str repr body @ prompt_2 @
          digits_of body_length @ prompt_3 @ str repr lgtm_count @ prompt_4 @
          str repr comments_count @ prompt_5 @ tags @ prompt_6 @
          history_prompt past_reviews @ prompt_7)))))))))))"

text \<open>
  The language model is an input of the model too: for a prompt, the call of lines 107-112
  either raises or gives a response whose \<open>choices[0].message.content\<close> is a string or
  \<open>None\<close>. Lines 114-117 normalize the string; \<open>None\<close> has no \<open>replace\<close>.
\<close>

datatype completion = ApiError | Content "ustr option"

definition evaluate_article_with_openai ::
    "(json \<Rightarrow> ustr) \<Rightarrow> (ustr \<Rightarrow> completion) \<Rightarrow> json \<Rightarrow> (int option \<times> ustr) list \<Rightarrow> exn + ustr" where
  "evaluate_article_with_openai repr client article past_reviews =
     bind_exn (build_prompt repr article past_reviews) (\<lambda>prompt.
     case client prompt of
       ApiError \<Rightarrow> Inl OpenAIError
     | Content None \<Rightarrow> Inl AttributeError
     | Content (Some result) \<Rightarrow> Inr (clean_result result))"

section \<open>The evaluation store\<close>

text \<open>
  The table \<open>evaluations\<close> of lines 20-35. A row holds what SQLite stores: \<open>id\<close> is an
  integer, \<open>article_id\<close> and \<open>title\<close> have TEXT affinity, \<open>score\<close> is an integer or NULL,
  \<open>created_at\<close> is the clock at the insertion (\<open>CURRENT_TIMESTAMP\<close>, in seconds). Beside
  the rows SQLite keeps, for an AUTOINCREMENT key, the largest \<open>id\<close> it ever gave out
  (\<open>sqlite_sequence\<close>).
\<close>

datatype sqlval = SNull | SInt int | SReal pyfloat | SText ustr

record row =
  col_id :: int
  col_user :: ustr
  col_article_id :: sqlval
  col_title :: sqlval
  col_score :: "int option"
  col_review :: ustr
  col_created_at :: nat

record store =
  rows :: "row list"
  seq :: int

definition init_db :: store where
  "init_db = \<lparr>rows = [], seq = 0\<rparr>"

text \<open>
  Binding a Python value to a \<open>?\<close>: \<open>None\<close>, integers that fit 64 bits (a \<open>bool\<close> is an
  integer), floats (a NaN is stored as NULL) and strings that UTF-8 can encode are
  supported; everything else raises. Strings that come from the request (the user, the
  article identifier) were decoded from UTF-8 by the framework and hold no surrogates.
\<close>

definition has_surrogate :: "ustr \<Rightarrow> bool" where
  "has_surrogate s \<longleftrightarrow> (\<exists>c \<in> set s. 55296 \<le> c \<and> c \<le> 57343)"

definition bind_text :: "ustr \<Rightarrow> exn + sqlval" where
  "bind_text s = (if has_surrogate s then Inl ValueError else Inr (SText s))"

fun bind_param :: "json \<Rightarrow> exn + sqlval" where
  "bind_param JNull = Inr SNull"
| "bind_param (JBool b) = Inr (SInt (if b then 1 else 0))"
| "bind_param (JInt i) =
     (if - 9223372036854775808 \<le> i \<and> i < 9223372036854775808 then Inr (SInt i)
      else Inl OverflowError)"
| "bind_param (JFloat f) = Inr (if f = NaN then SNull else SReal f)"
| "bind_param (JStr s) = bind_text s"
| "bind_param (JArr xs) = Inl DatabaseError"
| "bind_param (JObj kvs) = Inl DatabaseError"

text \<open>A number stored into a column of TEXT affinity is converted to text; how SQLite
  prints a real is the parameter \<open>real_text\<close>.\<close>

fun text_affinity :: "(pyfloat \<Rightarrow> ustr) \<Rightarrow> sqlval \<Rightarrow> sqlval" where
  "text_affinity real_text (SInt i) = SText (str_int i)"
| "text_affinity real_text (SReal f) = SText (real_text f)"
| "text_affinity real_text v = v"

text \<open>The key of a new row is one more than the largest key in the table or ever given
  out; past the largest 64-bit integer the insertion fails.\<close>

definition next_id :: "store \<Rightarrow> int" where
  "next_id st = 1 + max (seq st) (fold max (map col_id (rows st)) 0)"

text \<open>\<open>ORDER BY created_at\<close> and \<open>ORDER BY created_at DESC\<close>. SQL leaves the order of rows
  with equal keys open; the model keeps them in the order of the table.\<close>

definition order_by :: "('a \<Rightarrow> nat) \<Rightarrow> 'a list \<Rightarrow> 'a list" where
  "order_by key xs = sort_key key xs"

definition order_by_desc :: "('a \<Rightarrow> nat) \<Rightarrow> 'a list \<Rightarrow> 'a list" where
  "order_by_desc key xs = rev (sort_key key (rev xs))"

text \<open>Lines 127-128.\<close>

definition select_past_reviews :: "store \<Rightarrow> ustr \<Rightarrow> (int option \<times> ustr) list" where
  "select_past_reviews st usr =
     map (\<lambda>r. (col_score r, col_review r))
       (order_by col_created_at (filter (\<lambda>r. col_user r = usr) (rows st)))"

text \<open>Lines 145-148: the INSERT, inside the transaction that \<open>commit\<close> ends.\<close>

definition insert_evaluation ::
    "(pyfloat \<Rightarrow> ustr) \<Rightarrow> nat \<Rightarrow> store \<Rightarrow> ustr \<Rightarrow> json \<Rightarrow> json \<Rightarrow> int option \<Rightarrow> ustr \<Rightarrow> exn + store" where
  "insert_evaluation real_text clock st usr ident ttl sc evaluation =
     bind_exn (bind_param ident) (\<lambda>v_id.
     bind_exn (bind_param ttl) (\<lambda>v_title.
     bind_exn (bind_text evaluation) (\<lambda>v_review.
     if next_id st > 9223372036854775807 then Inl DatabaseError
     else Inr \<lparr>rows = rows st @
                 [\<lparr>col_id = next_id st, col_user = usr,
                   col_article_id = text_affinity real_text v_id,
                   col_title = text_affinity real_text v_title,
                   col_score = sc, col_review = evaluation, col_created_at = clock\<rparr>],
               seq = next_id st\<rparr>)))"


section \<open>The request handlers\<close>

text \<open>
  What the interpreter and SQLite contribute and \<open>main.py\<close> does not fix: the table of
  decimal digits, \<open>str\<close> of floats and containers, and the text form of a real.
\<close>

record runtime =
  decimal :: digit_table
  repr :: "json \<Rightarrow> ustr"
  real_text :: "pyfloat \<Rightarrow> ustr"

text \<open>
  What the outside world does during one request: whether opening the database and the
  SELECT raise, the content API, the language model, whether the INSERT or the COMMIT
  raise (a locked database, a full disk), and the clock at the INSERT. The calls of
  \<open>print\<close> are not modelled, and \<open>conn.close()\<close> after a commit that returned is taken
  to return as well.
\<close>

record env =
  select_fails :: bool
  qiita :: "ustr \<Rightarrow> http"
  client :: "ustr \<Rightarrow> completion"
  insert_fails :: bool
  commit_fails :: bool
  clock :: nat

text \<open>A handler returns either \<open>{"error": message}\<close> or its result.\<close>

datatype payload = Error ustr | Evaluation ustr "int option" ustr

text \<open>
  Lines 123-152, the body of the \<open>try\<close>. The result is what is returned together with
  the database after the request. An exception leaves the function before \<open>commit\<close> has
  returned, and the connection is dropped with its transaction, so the database is then
  the one before the request; the return of line 134 happens before any INSERT.
\<close>

definition evaluate_try :: "runtime \<Rightarrow> env \<Rightarrow> store \<Rightarrow> ustr \<Rightarrow> ustr \<Rightarrow> exn + payload \<times> store" where
  "evaluate_try R E db article_id usr =
     (if select_fails E then Inl DatabaseError
      else let past_reviews = select_past_reviews db usr in
      bind_exn (get_qiita_article (qiita E) article_id) (\<lambda>fetched.
      case fetched of
        None \<Rightarrow> Inr (Error article_error, db)
      | Some article \<Rightarrow>
          if \<not> truthy article then Inr (Error article_error, db)
          else
            bind_exn (evaluate_article_with_openai (repr R) (client E) article past_reviews) (\<lambda>evaluation.
            bind_exn (extract_score (decimal R) evaluation) (\<lambda>sc.
            bind_exn (get article key_id JNull) (\<lambda>ident.
            bind_exn (get article key_title JNull) (\<lambda>ttl.
            if insert_fails E then Inl DatabaseError
            else
              bind_exn (insert_evaluation (real_text R) (clock E) db usr ident ttl sc evaluation) (\<lambda>db'.
              if commit_fails E then Inl DatabaseError
              else Inr (Evaluation usr sc evaluation, db'))))))))"

text \<open>Lines 121-156: \<open>except Exception\<close> turns every exception into the generic message.\<close>

definition evaluate :: "runtime \<Rightarrow> env \<Rightarrow> store \<Rightarrow> ustr \<Rightarrow> ustr \<Rightarrow> payload \<times> store" where
  "evaluate R E db article_id usr =
     (case evaluate_try R E db article_id usr of
        Inl e \<Rightarrow> (Error unexpected_error, db)
      | Inr result \<Rightarrow> result)"

text \<open>Lines 160-175. The handler reads the database and does not change it.\<close>

record history_entry =
  h_article_id :: sqlval
  h_title :: sqlval
  h_score :: "int option"
  h_created_at :: nat

datatype history_payload = HistoryError ustr | History ustr "history_entry list"

definition get_user_history :: "bool \<Rightarrow> store \<Rightarrow> ustr \<Rightarrow> history_payload" where
  "get_user_history select_raises db usr =
     (if select_raises then HistoryError history_error
      else History usr
        (map (\<lambda>r. \<lparr>h_article_id = col_article_id r, h_title = col_title r,
                    h_score = col_score r, h_created_at = col_created_at r\<rparr>)
           (order_by_desc col_created_at (filter (\<lambda>r. col_user r = usr) (rows db)))))"

text \<open>A sequence of \<open>evaluate\<close> requests, one after the other, each with its own outside
  world: the payloads in the order of the requests, and the database at the end.\<close>

record request =
  req_env :: env
  req_article_id :: ustr
  req_user :: ustr

fun serve :: "runtime \<Rightarrow> store \<Rightarrow> request list \<Rightarrow> payload list \<times> store" where
  "serve R db [] = ([], db)"
| "serve R db (q # qs) =
     (case evaluate R (req_env q) db (req_article_id q) (req_user q) of
        (p, db') \<Rightarrow> (case serve R db' qs of (ps, db'') \<Rightarrow> (p # ps, db'')))"


section \<open>The properties, in the words of the specification\<close>

text \<open>
  A match of "1-3 digits immediately followed by the score unit" in \<open>s\<close>: it starts at
  position \<open>i\<close> and has \<open>k\<close> digits. The first match is the one that starts leftmost; where
  several lengths match at that position it is the longest, as the greedy quantifier has it.
\<close>

definition matches_at :: "digit_table \<Rightarrow> ustr \<Rightarrow> nat \<Rightarrow> nat \<Rightarrow> bool" where
  "matches_at dv s i k \<longleftrightarrow>
     1 \<le> k \<and> k \<le> 3 \<and> i + k < length s \<and> (\<forall>j<k. is_digit dv (s ! (i + j))) \<and>
     s ! (i + k) = score_unit"

definition first_match :: "digit_table \<Rightarrow> ustr \<Rightarrow> nat \<Rightarrow> nat \<Rightarrow> bool" where
  "first_match dv s i k \<longleftrightarrow>
     matches_at dv s i k \<and>
     (\<forall>i' k'. matches_at dv s i' k' \<longrightarrow> i \<le> i' \<and> (i' = i \<longrightarrow> k' \<le> k))"

text \<open>The integer that a string of decimal digits denotes.\<close>

definition digits_value :: "digit_table \<Rightarrow> ustr \<Rightarrow> int" where
  "digits_value dv ds =
     foldl (\<lambda>a c. 10 * a + int (case dv c of None \<Rightarrow> 0 | Some d \<Rightarrow> d)) 0 ds"

text \<open>A request was successful when its payload is the evaluation, not an error.\<close>

fun is_evaluation :: "payload \<Rightarrow> bool" where
  "is_evaluation (Evaluation usr sc rv) \<longleftrightarrow> True"
| "is_evaluation (Error msg) \<longleftrightarrow> False"

section \<open>A concrete instance\<close>

text \<open>
  An interpreter that knows the ASCII digits, an article as the content API documents it
  (identifier \<open>abc123\<close>, tags \<open>python\<close> and \<open>api\<close>, 10 likes, 2 comments), the response of
  the language model that the specification gives as example (\<open>85\<close>, the score unit, a
  newline, a reason), and a world in which nothing fails.
\<close>

definition sample_runtime :: runtime where
  "sample_runtime = \<lparr>decimal = ascii_digits, repr = (\<lambda>v. []), real_text = (\<lambda>f. [])\<rparr>"

definition sample_article :: json where
  "sample_article =
     JObj [(key_id, JStr [97, 98, 99, 49, 50, 51]),
           (key_title, JStr [84, 105, 116, 108, 101]),
           (key_body, JStr [104, 101, 108, 108, 111]),
           (key_tags, JArr [JObj [(key_name, JStr [112, 121, 116, 104, 111, 110])],
                            JObj [(key_name, JStr [97, 112, 105])]]),
           (key_likes_count, JInt 10),
           (key_comments_count, JInt 2)]"

definition sample_result :: ustr where
  "sample_result = [56, 53, 28857, 10, 29702, 30001, 58, 32, 46, 46, 46]"

definition sample_review :: ustr where
  "sample_review = [56, 53, 28857, 32, 29702, 30001, 58, 32, 46, 46, 46]"

definition quiet_env :: "http \<Rightarrow> completion \<Rightarrow> nat \<Rightarrow> env" where
  "quiet_env response completion time =
     \<lparr>select_fails = False, qiita = (\<lambda>article_id. response), client = (\<lambda>prompt. completion),
      insert_fails = False, commit_fails = False, clock = time\<rparr>"

definition sample_env :: "nat \<Rightarrow> env" where
  "sample_env time = quiet_env (Response 200 (Parsed sample_article)) (Content (Some sample_result)) time"

definition sample_id :: ustr where
  "sample_id = [97, 98, 99, 49, 50, 51]"

definition sample_user :: ustr where
  "sample_user = [97, 108, 105, 99, 101]"

definition sample_row :: "int \<Rightarrow> nat \<Rightarrow> row" where
  "sample_row n time =
     \<lparr>col_id = n, col_user = sample_user, col_article_id = SText sample_id,
      col_title = SText [84, 105, 116, 108, 101], col_score = Some 85,
      col_review = sample_review, col_created_at = time\<rparr>"

definition sample_requests :: "request list" where
  "sample_requests =
     [\<lparr>req_env = sample_env 100, req_article_id = sample_id, req_user = sample_user\<rparr>,
      \<lparr>req_env = sample_env 200, req_article_id = sample_id, req_user = sample_user\<rparr>]"

definition sample_score_line :: ustr where
  \<comment> \<open>'Score: 85' and the score unit: the match does not start the text\<close>
  "sample_score_line = [83, 99, 111, 114, 101, 58, 32, 56, 53, 28857]"

definition sample_history :: "(int option \<times> ustr) list" where
  \<comment> \<open>oldest first: score 70 with review 'old', then no score with review 'new'\<close>
  "sample_history = [(Some 70, [111, 108, 100]), (None, [110, 101, 119])]"

text \<open>The score that a payload carries.\<close>

fun payload_score :: "payload \<Rightarrow> int option" where
  "payload_score (Evaluation usr sc rv) = sc"
| "payload_score (Error msg) = None"

definition sample_entry :: "nat \<Rightarrow> history_entry" where
  "sample_entry time =
     \<lparr>h_article_id = SText sample_id, h_title = SText [84, 105, 116, 108, 101],
      h_score = Some 85, h_created_at = time\<rparr>"


section \<open>Lemmas\<close>

subsection \<open>The search for the score\<close>

lemma digit_run_le: "digit_run dv n s \<le> n"
  by (induction dv n s rule: digit_run.induct) auto

lemma digit_run_digits: "j < digit_run dv n s \<Longrightarrow> is_digit dv (s ! j)"
proof (induction dv n s arbitrary: j rule: digit_run.induct)
  case (3 dv n c s)
  then show ?case by (cases j) (auto split: if_splits)
qed auto

lemma digit_run_maximal:
  "(\<forall>j<k. is_digit dv (s ! j)) \<Longrightarrow> k \<le> n \<Longrightarrow> k \<le> length s \<Longrightarrow> k \<le> digit_run dv n s"
proof (induction dv n s arbitrary: k rule: digit_run.induct)
  case (3 dv n c s)
  show ?case
  proof (cases k)
    case 0
    then show ?thesis by simp
  next
    case (Suc k')
    with "3.prems" have c: "is_digit dv c" by auto
    from Suc "3.prems" have "\<forall>j<k'. is_digit dv (s ! j)" by auto
    with "3.IH" [OF c, of k'] Suc "3.prems" c show ?thesis by simp
  qed
qed auto

lemma backtrack_None:
  "backtrack n s = None \<longleftrightarrow> (\<forall>k. 1 \<le> k \<and> k \<le> n \<and> k < length s \<longrightarrow> s ! k \<noteq> score_unit)"
  by (induction n s rule: backtrack.induct) (auto simp: le_Suc_eq)

lemma backtrack_Some:
  "backtrack n s = Some g \<Longrightarrow>
     \<exists>k. 1 \<le> k \<and> k \<le> n \<and> k < length s \<and> s ! k = score_unit \<and> g = take k s \<and>
         (\<forall>k'. k < k' \<and> k' \<le> n \<and> k' < length s \<longrightarrow> s ! k' \<noteq> score_unit)"
proof (induction n s rule: backtrack.induct)
  case (1 s)
  then show ?case by simp
next
  case (2 k s)
  show ?case
  proof (cases "Suc k < length s \<and> s ! Suc k = score_unit")
    case True
    with "2.prems" have "g = take (Suc k) s" by simp
    with True show ?thesis by (intro exI [of _ "Suc k"]) auto
  next
    case False
    with "2.prems" have b: "backtrack k s = Some g" by auto
    from "2.IH" [OF False b]
    obtain j where j: "1 \<le> j" "j \<le> k" "j < length s" "s ! j = score_unit" "g = take j s"
        "\<forall>k'. j < k' \<and> k' \<le> k \<and> k' < length s \<longrightarrow> s ! k' \<noteq> score_unit" by blast
    have "\<forall>k'. j < k' \<and> k' \<le> Suc k \<and> k' < length s \<longrightarrow> s ! k' \<noteq> score_unit"
      using j(6) False by (auto simp: le_Suc_eq)
    with j show ?thesis by (intro exI [of _ j]) auto
  qed
qed

lemma match_at_None:
  "match_at dv s = None \<longleftrightarrow> (\<forall>k. \<not> matches_at dv s 0 k)"
proof
  assume n: "match_at dv s = None"
  show "\<forall>k. \<not> matches_at dv s 0 k"
  proof (intro allI notI)
    fix k assume m: "matches_at dv s 0 k"
    then have "k \<le> digit_run dv 3 s"
      by (intro digit_run_maximal) (auto simp: matches_at_def)
    with n m show False
      by (auto simp: match_at_def backtrack_None matches_at_def)
  qed
next
  assume a: "\<forall>k. \<not> matches_at dv s 0 k"
  show "match_at dv s = None"
    unfolding match_at_def backtrack_None
  proof (intro allI impI)
    fix k assume k: "1 \<le> k \<and> k \<le> digit_run dv 3 s \<and> k < length s"
    have "k \<le> 3" using k digit_run_le [of dv 3 s] by simp
    moreover have "\<forall>j<k. is_digit dv (s ! j)" using k digit_run_digits [of _ dv 3 s] by auto
    ultimately show "s ! k \<noteq> score_unit" using a k by (auto simp: matches_at_def)
  qed
qed

lemma match_at_Some:
  assumes "match_at dv s = Some g"
  shows "\<exists>k. matches_at dv s 0 k \<and> g = take k s \<and> (\<forall>k'. matches_at dv s 0 k' \<longrightarrow> k' \<le> k)"
proof -
  from backtrack_Some [OF assms [unfolded match_at_def]]
  obtain k where k: "1 \<le> k" "k \<le> digit_run dv 3 s" "k < length s" "s ! k = score_unit"
      "g = take k s"
      "\<forall>k'. k < k' \<and> k' \<le> digit_run dv 3 s \<and> k' < length s \<longrightarrow> s ! k' \<noteq> score_unit" by blast
  have k3: "k \<le> 3" using k(2) digit_run_le [of dv 3 s] by simp
  have dg: "\<forall>j<k. is_digit dv (s ! j)" using k(2) digit_run_digits [of _ dv 3 s] by auto
  have m: "matches_at dv s 0 k" using k k3 dg by (simp add: matches_at_def)
  have "\<forall>k'. matches_at dv s 0 k' \<longrightarrow> k' \<le> k"
  proof (intro allI impI)
    fix k' assume m': "matches_at dv s 0 k'"
    then have "k' \<le> digit_run dv 3 s"
      by (intro digit_run_maximal) (auto simp: matches_at_def)
    with m' k(6) show "k' \<le> k" by (fastforce simp: matches_at_def not_le)
  qed
  with m k(5) show ?thesis by blast
qed

lemma matches_at_Cons: "matches_at dv (c # s) (Suc i) k \<longleftrightarrow> matches_at dv s i k"
  by (simp add: matches_at_def)

lemma re_search_None:
  "re_search dv s = None \<longleftrightarrow> (\<forall>i k. \<not> matches_at dv s i k)"
proof (induction s)
  case Nil
  then show ?case by (simp add: matches_at_def)
next
  case (Cons c s)
  have split: "(\<forall>i k. \<not> matches_at dv (c # s) i k) \<longleftrightarrow>
      (\<forall>k. \<not> matches_at dv (c # s) 0 k) \<and> (\<forall>i k. \<not> matches_at dv s i k)"
    (is "?L \<longleftrightarrow> ?R")
  proof
    assume ?L then show ?R using matches_at_Cons [of dv c s] by blast
  next
    assume r: ?R
    show ?L
    proof (intro allI)
      fix i k show "\<not> matches_at dv (c # s) i k"
        using r matches_at_Cons [of dv c s] by (cases i) auto
    qed
  qed
  show ?case
    using Cons split match_at_None [of dv "c # s"]
    by (auto split: option.splits)
qed

lemma re_search_Some:
  "re_search dv s = Some g \<Longrightarrow> \<exists>i k. first_match dv s i k \<and> g = take k (drop i s)"
proof (induction s)
  case Nil
  then show ?case by simp
next
  case (Cons c s)
  show ?case
  proof (cases "match_at dv (c # s)")
    case (Some g')
    with Cons.prems have g: "g' = g" by simp
    from match_at_Some [OF Some] g
    obtain k where k: "matches_at dv (c # s) 0 k" "g = take k (c # s)"
        "\<forall>k'. matches_at dv (c # s) 0 k' \<longrightarrow> k' \<le> k" by blast
    then have "first_match dv (c # s) 0 k" by (auto simp: first_match_def)
    with k(2) show ?thesis by (intro exI [of _ 0] exI [of _ k]) simp
  next
    case None
    with Cons.prems have "re_search dv s = Some g" by simp
    from Cons.IH [OF this]
    obtain i k where ik: "first_match dv s i k" "g = take k (drop i s)" by blast
    have no0: "\<forall>k. \<not> matches_at dv (c # s) 0 k" using None by (simp add: match_at_None)
    have "first_match dv (c # s) (Suc i) k"
      unfolding first_match_def
    proof (intro conjI allI impI)
      show "matches_at dv (c # s) (Suc i) k" using ik(1) by (simp add: first_match_def matches_at_Cons)
    next
      fix i' k' assume m: "matches_at dv (c # s) i' k'"
      then obtain i0 where i0: "i' = Suc i0" using no0 by (cases i') auto
      with m have "matches_at dv s i0 k'" by (simp add: matches_at_Cons)
      with ik(1) have "i \<le> i0 \<and> (i0 = i \<longrightarrow> k' \<le> k)" by (auto simp: first_match_def)
      then show "Suc i \<le> i'" using i0 by simp
    next
      fix i' k' assume m: "matches_at dv (c # s) i' k'" and e: "i' = Suc i"
      then have "matches_at dv s i k'" by (simp add: matches_at_Cons)
      with ik(1) show "k' \<le> k" by (auto simp: first_match_def)
    qed
    with ik(2) show ?thesis by (intro exI [of _ "Suc i"] exI [of _ k]) simp
  qed
qed

lemma first_match_unique:
  "first_match dv s i k \<Longrightarrow> first_match dv s i' k' \<Longrightarrow> i' = i \<and> k' = k"
  unfolding first_match_def by (metis le_antisym)

lemma int_digits_value:
  "\<forall>c \<in> set g. is_digit dv c \<Longrightarrow>
   int_digits dv acc g =
     Inr (foldl (\<lambda>a c. 10 * a + int (case dv c of None \<Rightarrow> 0 | Some d \<Rightarrow> d)) acc g)"
  by (induction g arbitrary: acc) (auto simp: is_digit_def mult.commute)

lemma matches_at_digits:
  assumes "matches_at dv s i k"
  shows "take k (drop i s) \<noteq> [] \<and> (\<forall>c \<in> set (take k (drop i s)). is_digit dv c)"
proof -
  from assms have k: "1 \<le> k" "i + k < length s" "\<forall>j<k. is_digit dv (s ! (i + j))"
    by (auto simp: matches_at_def)
  have "\<forall>c \<in> set (take k (drop i s)). is_digit dv c"
  proof
    fix c assume "c \<in> set (take k (drop i s))"
    then obtain j where j: "j < length (take k (drop i s))" "c = take k (drop i s) ! j"
      by (auto simp: in_set_conv_nth)
    then have "j < k" by simp
    with j k show "is_digit dv c" by simp
  qed
  moreover have "take k (drop i s) \<noteq> []" using k by auto
  ultimately show ?thesis by blast
qed

lemma extract_score_first:
  "first_match dv s i k \<Longrightarrow> extract_score dv s = Inr (Some (digits_value dv (take k (drop i s))))"
proof -
  assume f: "first_match dv s i k"
  then have "\<not> (\<forall>i k. \<not> matches_at dv s i k)" by (auto simp: first_match_def)
  then obtain g where g: "re_search dv s = Some g"
    using re_search_None [of dv s] by (cases "re_search dv s") auto
  from re_search_Some [OF g] obtain i' k' where
    f': "first_match dv s i' k'" "g = take k' (drop i' s)" by blast
  from first_match_unique [OF f f'(1)] f'(2) have ge: "g = take k (drop i s)" by simp
  from f have "matches_at dv s i k" by (simp add: first_match_def)
  from matches_at_digits [OF this] ge have "g \<noteq> []" "\<forall>c \<in> set g. is_digit dv c" by auto
  then show ?thesis
    using g ge by (simp add: extract_score_def py_int_def int_digits_value digits_value_def)
qed

lemma extract_score_none:
  "(\<forall>i k. \<not> matches_at dv s i k) \<Longrightarrow> extract_score dv s = Inr None"
  using re_search_None [of dv s] by (simp add: extract_score_def)

lemma int_digits_bounds:
  assumes "\<forall>c d. dv c = Some d \<longrightarrow> d \<le> 9"
  shows "int_digits dv acc g = Inr n \<Longrightarrow> 0 \<le> acc \<Longrightarrow> 0 \<le> n \<and> n < (acc + 1) * 10 ^ length g"
proof (induction g arbitrary: acc)
  case Nil
  then show ?case by simp
next
  case (Cons c g)
  from Cons.prems(1) obtain d where d: "dv c = Some d" "int_digits dv (acc * 10 + int d) g = Inr n"
    by (cases "dv c") auto
  from assms d(1) have d9: "d \<le> 9" by blast
  from Cons.IH [OF d(2)] Cons.prems(2)
  have n: "0 \<le> n" "n < (acc * 10 + int d + 1) * 10 ^ length g" by auto
  have "acc * 10 + int d + 1 \<le> (acc + 1) * 10" using d9 by simp
  then have "(acc * 10 + int d + 1) * 10 ^ length g \<le> ((acc + 1) * 10) * 10 ^ length g"
    by (intro mult_right_mono) auto
  also have "\<dots> = (acc + 1) * 10 ^ length (c # g)" by simp
  finally have "(acc * 10 + int d + 1) * 10 ^ length g \<le> (acc + 1) * 10 ^ length (c # g)" .
  with n show ?case by linarith
qed

lemma first_match_length: "first_match dv s i k \<Longrightarrow> 1 \<le> k \<and> k \<le> 3"
  by (simp add: first_match_def matches_at_def)

lemma extract_score_range:
  assumes tab: "\<forall>c d. dv c = Some d \<longrightarrow> d \<le> 9"
    and e: "extract_score dv s = Inr (Some n)"
  shows "0 \<le> n \<and> n \<le> 999"
proof -
  from e obtain g where g: "re_search dv s = Some g" "py_int dv g = Inr n"
    by (auto simp: extract_score_def split: option.splits sum.splits)
  from re_search_Some [OF g(1)] obtain i k where
    ik: "first_match dv s i k" "g = take k (drop i s)" by blast
  from first_match_length [OF ik(1)] ik(2) have l: "length g \<le> 3" by (simp add: min_def)
  from g(2) have "int_digits dv 0 g = Inr n" by (auto simp: py_int_def split: if_splits)
  from int_digits_bounds [OF tab this] have n: "0 \<le> n" "n < 10 ^ length g" by auto
  have "(10::int) ^ length g \<le> 10 ^ 3" using l by (intro power_increasing) auto
  with n show ?thesis by simp
qed

lemma extract_score_last_three:
  assumes unit: "dv score_unit = None"
    and pre: "re_search dv pre = None"
    and ds: "\<forall>c \<in> set ds. is_digit dv c"
    and len: "3 \<le> length ds"
  shows "extract_score dv (pre @ ds @ score_unit # post) =
      Inr (Some (digits_value dv (drop (length ds - 3) ds)))"
proof -
  let ?s = "pre @ ds @ score_unit # post"
  let ?i = "length pre + (length ds - 3)"
  have nodigit: "\<not> is_digit dv score_unit" using unit by (simp add: is_digit_def)
  have nth_ds: "?s ! (length pre + j) = ds ! j" if "j < length ds" for j
    using that by (simp add: nth_append)
  have nth_unit: "?s ! (length pre + length ds) = score_unit"
    by (simp add: nth_append)
  have m: "matches_at dv ?s ?i 3"
    unfolding matches_at_def
  proof (intro conjI allI impI)
    show "?i + 3 < length ?s" using len by simp
    show "?s ! (?i + 3) = score_unit" using len nth_unit by (simp add: add.assoc)
    fix j :: nat assume j: "j < 3"
    then have "length ds - 3 + j < length ds" using len by simp
    from nth_ds [OF this] have "?s ! (?i + j) = ds ! (length ds - 3 + j)" by (simp add: add.assoc)
    moreover have "ds ! (length ds - 3 + j) \<in> set ds" using j len by simp
    ultimately show "is_digit dv (?s ! (?i + j))" using ds by simp
  qed simp_all
  have least: "?i \<le> i'" if m': "matches_at dv ?s i' k'" for i' k'
  proof (rule ccontr)
    assume "\<not> ?i \<le> i'"
    then have lt: "i' < ?i" by simp
    from m' have k': "1 \<le> k'" "k' \<le> 3" "i' + k' < length ?s"
        "\<forall>j<k'. is_digit dv (?s ! (i' + j))" "?s ! (i' + k') = score_unit"
      by (auto simp: matches_at_def)
    have p: "i' + k' < length pre + length ds" using lt k'(2) len by simp
    show False
    proof (cases "i' + k' < length pre")
      case True
      have "matches_at dv pre i' k'"
        unfolding matches_at_def
      proof (intro conjI allI impI)
        show "i' + k' < length pre" by (rule True)
        show "pre ! (i' + k') = score_unit" using k'(5) True by (simp add: nth_append)
        fix j assume "j < k'"
        with k'(4) True show "is_digit dv (pre ! (i' + j))" by (simp add: nth_append)
      qed (use k' in simp_all)
      with pre show False by (simp add: re_search_None)
    next
      case False
      then obtain j where j: "i' + k' = length pre + j" "j < length ds"
        using p by (metis add_diff_inverse_nat nat_add_left_cancel_less)
      from nth_ds [OF j(2)] j(1) k'(5) have "ds ! j = score_unit" by simp
      moreover have "ds ! j \<in> set ds" using j(2) by simp
      ultimately show False using ds nodigit by auto
    qed
  qed
  have "first_match dv ?s ?i 3"
    unfolding first_match_def
  proof (intro conjI allI impI)
    show "matches_at dv ?s ?i 3" by (rule m)
  next
    fix i' k' assume "matches_at dv ?s i' k'"
    then show "?i \<le> i'" by (rule least)
  next
    fix i' k' assume "matches_at dv ?s i' k'"
    then show "k' \<le> 3" by (simp add: matches_at_def)
  qed
  from extract_score_first [OF this]
  have "extract_score dv ?s = Inr (Some (digits_value dv (take 3 (drop ?i ?s))))" .
  moreover have "take 3 (drop ?i ?s) = drop (length ds - 3) ds"
    using len by simp
  ultimately show ?thesis by simp
qed

subsection \<open>Normalizing the response\<close>













subsection \<open>The history digest and the store\<close>

lemma history_loop_append:
  "history_loop idx xs acc =
     acc @ concat (map (\<lambda>i. history_line (idx + i) (fst (xs ! i)) (snd (xs ! i))) [0..<length xs])"
proof (induction idx xs acc rule: history_loop.induct)
  case (1 idx acc)
  then show ?case by simp
next
  case (2 idx sc rv rest acc)
  have "map (\<lambda>i. history_line (idx + i) (fst (((sc, rv) # rest) ! i)) (snd (((sc, rv) # rest) ! i)))
          [0..<length ((sc, rv) # rest)] =
        history_line idx sc rv #
        map (\<lambda>i. history_line (Suc idx + i) (fst (rest ! i)) (snd (rest ! i))) [0..<length rest]"
    by (simp add: upt_conv_Cons map_Suc_upt [symmetric] del: upt_Suc)
  with 2 show ?case by simp
qed

lemma history_digest_lines:
  "history_prompt past =
     (if past = [] then first_evaluation
      else history_header @
        concat (map (\<lambda>i. history_line (Suc i) (fst (past ! (length past - Suc i)))
                      (snd (past ! (length past - Suc i)))) [0..<length past]) @
        history_footer)"
proof -
  have e: "map (\<lambda>i. history_line (1 + i) (fst (rev past ! i)) (snd (rev past ! i))) [0..<length (rev past)] =
        map (\<lambda>i. history_line (Suc i) (fst (past ! (length past - Suc i)))
                      (snd (past ! (length past - Suc i)))) [0..<length past]"
    by (simp add: rev_nth)
  show ?thesis
    unfolding history_prompt_def history_loop_append e by simp
qed

lemma build_prompt_history:
  "build_prompt rp article past = Inr p \<Longrightarrow> \<exists>pre. p = pre @ history_prompt past @ prompt_7"
  unfolding build_prompt_def
  by (auto simp: bind_exn_def split: sum.splits)

lemma fold_max_ge: "(a::int) \<le> fold max xs a"
  by (induction xs arbitrary: a) (auto intro: order_trans [OF max.cobounded2])

lemma fold_max_mem: "(x::int) \<in> set xs \<Longrightarrow> x \<le> fold max xs a"
proof (induction xs arbitrary: a)
  case Nil
  then show ?case by simp
next
  case (Cons y ys)
  show ?case
  proof (cases "x = y")
    case True
    have "x \<le> max y a" using True by simp
    also have "\<dots> \<le> fold max ys (max y a)" by (rule fold_max_ge)
    finally show ?thesis by simp
  next
    case False
    with Cons show ?thesis by simp
  qed
qed

lemma next_id_fresh: "r \<in> set (rows db) \<Longrightarrow> col_id r < next_id db"
proof -
  assume "r \<in> set (rows db)"
  then have "col_id r \<in> set (map col_id (rows db))" by simp
  then have "col_id r \<le> fold max (map col_id (rows db)) 0" by (rule fold_max_mem)
  then show ?thesis by (simp add: next_id_def)
qed

lemma next_id_seq: "seq db < next_id db"
  by (simp add: next_id_def)

lemma order_by_desc_sorted:
  "sorted_wrt (\<lambda>a b. key b \<le> key a) (order_by_desc key xs)"
proof -
  have "sorted (map key (sort_key key (rev xs)))" by (rule sorted_sort_key)
  then have "sorted_wrt (\<lambda>a b. key a \<le> key b) (sort_key key (rev xs))"
    by (simp add: sorted_map)
  then show ?thesis
    unfolding order_by_desc_def by (simp add: sorted_wrt_rev)
qed

lemma order_by_desc_length: "length (order_by_desc key xs) = length xs"
  by (simp add: order_by_desc_def)

subsection \<open>The outcomes of a request\<close>

lemma bind_exn_Inr:
  "bind_exn m f = Inr y \<longleftrightarrow> (\<exists>x. m = Inr x \<and> f x = Inr y)"
  by (cases m) (auto simp: bind_exn_def)

lemma insert_evaluation_Inr:
  assumes "insert_evaluation rt t db u ident ttl sc rv = Inr db'"
  shows "\<exists>r. rows db' = rows db @ [r] \<and> seq db' = next_id db \<and> col_id r = next_id db \<and>
      col_user r = u \<and> col_score r = sc \<and> col_review r = rv \<and> col_created_at r = t \<and>
      (\<exists>v. bind_param ident = Inr v \<and> col_article_id r = text_affinity rt v) \<and>
      (\<exists>v. bind_param ttl = Inr v \<and> col_title r = text_affinity rt v)"
  using assms unfolding insert_evaluation_def bind_exn_Inr
  by (auto split: if_splits)

lemma evaluate_try_Evaluation:
  assumes "evaluate_try R E db aid u = Inr (Evaluation u' sc rv, db')"
  shows "\<exists>article prompt result ident ttl.
      \<not> select_fails E \<and> \<not> insert_fails E \<and> \<not> commit_fails E \<and>
      qiita E aid = Response 200 (Parsed article) \<and> truthy article \<and>
      build_prompt (repr R) article (select_past_reviews db u) = Inr prompt \<and>
      client E prompt = Content (Some result) \<and> rv = clean_result result \<and>
      extract_score (decimal R) rv = Inr sc \<and> u' = u \<and>
      get article key_id JNull = Inr ident \<and> get article key_title JNull = Inr ttl \<and>
      insert_evaluation (real_text R) (clock E) db u ident ttl sc rv = Inr db'"
proof -
  from assms have sf: "\<not> select_fails E"
    by (auto simp: evaluate_try_def split: if_splits)
  from assms sf obtain fetched where
    f: "get_qiita_article (qiita E) aid = Inr fetched"
    by (auto simp: evaluate_try_def Let_def bind_exn_Inr)
  from assms sf f obtain article where a: "fetched = Some article" "truthy article"
    by (cases fetched) (auto simp: evaluate_try_def Let_def bind_exn_def split: if_splits)
  from f a have q: "qiita E aid = Response 200 (Parsed article)"
    by (auto simp: get_qiita_article_def split: http.splits body.splits if_splits)
  from assms sf f a have rest: "bind_exn (evaluate_article_with_openai (repr R) (client E) article
       (select_past_reviews db u)) (\<lambda>evaluation.
            bind_exn (extract_score (decimal R) evaluation) (\<lambda>sc.
            bind_exn (get article key_id JNull) (\<lambda>ident.
            bind_exn (get article key_title JNull) (\<lambda>ttl.
            if insert_fails E then Inl DatabaseError
            else
              bind_exn (insert_evaluation (real_text R) (clock E) db u ident ttl sc evaluation) (\<lambda>db'.
              if commit_fails E then Inl DatabaseError
              else Inr (Evaluation u sc evaluation, db')))))) = Inr (Evaluation u' sc rv, db')"
    by (simp add: evaluate_try_def Let_def bind_exn_def)
  then obtain ev sc0 ident ttl db0 where
    s: "evaluate_article_with_openai (repr R) (client E) article (select_past_reviews db u) = Inr ev"
      "extract_score (decimal R) ev = Inr sc0"
      "get article key_id JNull = Inr ident" "get article key_title JNull = Inr ttl"
      "\<not> insert_fails E"
      "insert_evaluation (real_text R) (clock E) db u ident ttl sc0 ev = Inr db0"
      "\<not> commit_fails E" "Evaluation u sc0 ev = Evaluation u' sc rv" "db0 = db'"
    by (auto simp: bind_exn_Inr split: if_splits)
  from s(1) obtain prompt where
    p1: "build_prompt (repr R) article (select_past_reviews db u) = Inr prompt"
      "(case client E prompt of ApiError \<Rightarrow> Inl OpenAIError
        | Content None \<Rightarrow> Inl AttributeError
        | Content (Some result) \<Rightarrow> Inr (clean_result result)) = Inr ev"
    unfolding evaluate_article_with_openai_def bind_exn_Inr by blast
  from p1(2) obtain result where
    p2: "client E prompt = Content (Some result)" "ev = clean_result result"
    by (cases "client E prompt") (auto split: option.splits)
  note p = p1(1) p2
  from s p sf q a show ?thesis by auto
qed

lemma evaluate_try_Error:
  assumes "evaluate_try R E db aid u = Inr (Error msg, db')"
  shows "msg = article_error \<and> db' = db"
proof -
  from assms have sf: "\<not> select_fails E"
    by (auto simp: evaluate_try_def split: if_splits)
  from assms sf obtain fetched where
    f: "get_qiita_article (qiita E) aid = Inr fetched"
    by (auto simp: evaluate_try_def Let_def bind_exn_Inr)
  show ?thesis
  proof (cases "\<exists>article. fetched = Some article \<and> truthy article")
    case True
    then obtain article where a: "fetched = Some article" "truthy article" by blast
    from assms sf f a have "bind_exn (evaluate_article_with_openai (repr R) (client E) article
       (select_past_reviews db u)) (\<lambda>evaluation.
            bind_exn (extract_score (decimal R) evaluation) (\<lambda>sc.
            bind_exn (get article key_id JNull) (\<lambda>ident.
            bind_exn (get article key_title JNull) (\<lambda>ttl.
            if insert_fails E then Inl DatabaseError
            else
              bind_exn (insert_evaluation (real_text R) (clock E) db u ident ttl sc evaluation) (\<lambda>db'.
              if commit_fails E then Inl DatabaseError
              else Inr (Evaluation u sc evaluation, db')))))) = Inr (Error msg, db')"
      by (simp add: evaluate_try_def Let_def bind_exn_def)
    then have False by (auto simp: bind_exn_Inr split: if_splits)
    then show ?thesis ..
  next
    case False
    with assms sf f show ?thesis
      by (cases fetched) (auto simp: evaluate_try_def Let_def bind_exn_def split: if_splits)
  qed
qed

lemma evaluate_success:
  assumes "\<not> select_fails E" and "qiita E aid = Response 200 (Parsed article)"
    and "truthy article"
    and "build_prompt (repr R) article (select_past_reviews db u) = Inr prompt"
    and "client E prompt = Content (Some result)"
    and "extract_score (decimal R) (clean_result result) = Inr sc"
    and "get article key_id JNull = Inr ident" and "get article key_title JNull = Inr ttl"
    and "\<not> insert_fails E"
    and "insert_evaluation (real_text R) (clock E) db u ident ttl sc (clean_result result) = Inr db'"
    and "\<not> commit_fails E"
  shows "evaluate R E db aid u = (Evaluation u sc (clean_result result), db')"
proof -
  have "get_qiita_article (qiita E) aid = Inr (Some article)"
    using assms(2) by (simp add: get_qiita_article_def)
  moreover have "evaluate_article_with_openai (repr R) (client E) article
      (select_past_reviews db u) = Inr (clean_result result)"
    using assms(4,5) by (simp add: evaluate_article_with_openai_def bind_exn_def)
  ultimately show ?thesis
    using assms by (simp add: evaluate_def evaluate_try_def bind_exn_def)
qed

lemma evaluate_outcome:
  "(\<exists>sc rv r. evaluate R E db aid u = (Evaluation u sc rv, db\<lparr>rows := rows db @ [r], seq := next_id db\<rparr>) \<and>
       col_id r = next_id db \<and> col_user r = u \<and> col_score r = sc \<and> col_review r = rv \<and>
       col_created_at r = clock E) \<or>
   (\<exists>msg. evaluate R E db aid u = (Error msg, db) \<and> (msg = article_error \<or> msg = unexpected_error))"
proof (cases "evaluate_try R E db aid u")
  case (Inl e)
  then show ?thesis by (simp add: evaluate_def)
next
  case (Inr res)
  obtain p db' where res: "res = (p, db')" by (cases res)
  show ?thesis
  proof (cases p)
    case (Error msg)
    with Inr res evaluate_try_Error [of R E db aid u msg db'] show ?thesis
      by (simp add: evaluate_def)
  next
    case (Evaluation u' sc rv)
    with Inr res have t: "evaluate_try R E db aid u = Inr (Evaluation u' sc rv, db')" by simp
    from evaluate_try_Evaluation [OF t] obtain ident ttl where
      i: "u' = u" "insert_evaluation (real_text R) (clock E) db u ident ttl sc rv = Inr db'"
      by blast
    from insert_evaluation_Inr [OF i(2)] obtain r where
      r: "rows db' = rows db @ [r]" "seq db' = next_id db" "col_id r = next_id db"
        "col_user r = u" "col_score r = sc" "col_review r = rv" "col_created_at r = clock E"
      by blast
    have "db' = db\<lparr>rows := rows db @ [r], seq := next_id db\<rparr>"
      using r(1,2) by (cases db, cases db') simp
    with t i(1) r show ?thesis by (auto simp: evaluate_def)
  qed
qed

subsection \<open>The concrete instance\<close>

lemmas key_defs = key_tags_def key_name_def key_likes_count_def key_comments_count_def
  key_body_def key_title_def key_id_def

lemma sample_prompt:
  "\<exists>p. build_prompt rp sample_article past = Inr p"
  by (simp add: build_prompt_def sample_article_def key_defs bind_exn_def join_def)

lemma sample_clean: "clean_result sample_result = sample_review"
  by (simp add: clean_result_def sample_result_def sample_review_def replace_def strip_def isspace_def)

lemma sample_score: "extract_score ascii_digits sample_review = Inr (Some 85)"
  by (simp add: extract_score_def sample_review_def match_at_def is_digit_def ascii_digits_def
      score_unit_def py_int_def numeral_3_eq_3)

lemma sample_insert:
  "next_id db \<le> 9223372036854775807 \<Longrightarrow>
   insert_evaluation rt t db sample_user (JStr sample_id) (JStr [84, 105, 116, 108, 101])
     (Some 85) sample_review = Inr \<lparr>rows = rows db @ [sample_row (next_id db) t], seq = next_id db\<rparr>"
  by (simp add: insert_evaluation_def bind_exn_def bind_text_def has_surrogate_def sample_id_def
        sample_review_def sample_row_def)

lemma sample_evaluate:
  assumes "next_id db \<le> 9223372036854775807"
  shows "evaluate sample_runtime (sample_env t) db sample_id sample_user =
     (Evaluation sample_user (Some 85) sample_review,
      \<lparr>rows = rows db @ [sample_row (next_id db) t], seq = next_id db\<rparr>)"
proof -
  obtain p where p: "build_prompt (repr sample_runtime) sample_article
      (select_past_reviews db sample_user) = Inr p"
    using sample_prompt by blast
  have "evaluate sample_runtime (sample_env t) db sample_id sample_user =
     (Evaluation sample_user (Some 85) (clean_result sample_result),
      \<lparr>rows = rows db @ [sample_row (next_id db) t], seq = next_id db\<rparr>)"
  proof (rule evaluate_success [OF _ _ _ p])
    show "\<not> select_fails (sample_env t)" "\<not> insert_fails (sample_env t)"
      "\<not> commit_fails (sample_env t)"
      by (simp_all add: sample_env_def quiet_env_def)
    show "qiita (sample_env t) sample_id = Response 200 (Parsed sample_article)"
      by (simp add: sample_env_def quiet_env_def)
    show "truthy sample_article" by (simp add: sample_article_def)
    show "client (sample_env t) p = Content (Some sample_result)"
      by (simp add: sample_env_def quiet_env_def)
    show "extract_score (decimal sample_runtime) (clean_result sample_result) = Inr (Some 85)"
      by (simp add: sample_clean sample_score sample_runtime_def)
    show "get sample_article key_id JNull = Inr (JStr sample_id)"
      by (simp add: sample_article_def sample_id_def)
    show "get sample_article key_title JNull = Inr (JStr [84, 105, 116, 108, 101])"
      by (simp add: sample_article_def key_defs)
    show "insert_evaluation (real_text sample_runtime) (clock (sample_env t)) db sample_user
        (JStr sample_id) (JStr [84, 105, 116, 108, 101]) (Some 85) (clean_result sample_result) =
        Inr \<lparr>rows = rows db @ [sample_row (next_id db) t], seq = next_id db\<rparr>"
      using sample_insert [OF assms] by (simp add: sample_clean sample_env_def quiet_env_def)
  qed
  then show ?thesis by (simp add: sample_clean)
qed

lemma sample_evaluate_first:
  "evaluate sample_runtime (sample_env t) init_db sample_id sample_user =
     (Evaluation sample_user (Some 85) sample_review, \<lparr>rows = [sample_row 1 t], seq = 1\<rparr>)"
  using sample_evaluate [of init_db t] by (simp add: init_db_def next_id_def)

lemma sample_evaluate_second:
  "evaluate sample_runtime (sample_env t') \<lparr>rows = [sample_row 1 t], seq = 1\<rparr> sample_id sample_user =
     (Evaluation sample_user (Some 85) sample_review,
      \<lparr>rows = [sample_row 1 t, sample_row 2 t'], seq = 2\<rparr>)"
  using sample_evaluate [of "\<lparr>rows = [sample_row 1 t], seq = 1\<rparr>" t']
  by (simp add: next_id_def sample_row_def)

lemma sample_serve:
  "serve sample_runtime init_db sample_requests =
     ([Evaluation sample_user (Some 85) sample_review, Evaluation sample_user (Some 85) sample_review],
      \<lparr>rows = [sample_row 1 100, sample_row 2 200], seq = 2\<rparr>)"
  by (simp add: sample_requests_def sample_evaluate_first sample_evaluate_second)

lemma evaluate_Evaluation:
  "evaluate R E db aid u = (Evaluation u' sc rv, db') \<Longrightarrow>
   evaluate_try R E db aid u = Inr (Evaluation u' sc rv, db')"
  by (auto simp: evaluate_def split: sum.splits)

lemma first_match_exists:
  "matches_at dv s i k \<Longrightarrow> \<exists>i k. first_match dv s i k"
proof -
  assume "matches_at dv s i k"
  then have "re_search dv s \<noteq> None" by (auto simp: re_search_None)
  then obtain g where "re_search dv s = Some g" by auto
  from re_search_Some [OF this] show ?thesis by blast
qed

lemma evaluate_not_found:
  assumes "get_qiita_article (qiita E) aid = Inr fetched"
    and "fetched = None \<or> (\<exists>v. fetched = Some v \<and> \<not> truthy v)"
  shows "evaluate R E db aid u =
      (Error (if select_fails E then unexpected_error else article_error), db)"
  using assms by (auto simp: evaluate_def evaluate_try_def bind_exn_def)

lemma messages_differ: "unexpected_error \<noteq> article_error"
  by (simp add: unexpected_error_def article_error_def)









lemma serve_Cons:
  "serve R db (q # qs) = (ps, db') \<longleftrightarrow>
     (\<exists>p db1 ps'. evaluate R (req_env q) db (req_article_id q) (req_user q) = (p, db1) \<and>
        serve R db1 qs = (ps', db') \<and> ps = p # ps')"
  by (auto split: prod.splits)

lemma evaluate_user_rows:
  assumes "evaluate R E db aid u = (p, db1)"
  shows "length (filter (\<lambda>r. col_user r = usr) (rows db1)) =
      length (filter (\<lambda>r. col_user r = usr) (rows db)) +
      (if u = usr \<and> is_evaluation p then 1 else 0)"
  using evaluate_outcome [of R E db aid u] assms by auto

lemma serve_user_rows:
  "serve R db qs = (ps, db') \<Longrightarrow>
   length (filter (\<lambda>r. col_user r = usr) (rows db')) =
     length (filter (\<lambda>r. col_user r = usr) (rows db)) +
     length (filter (\<lambda>(q, p). req_user q = usr \<and> is_evaluation p) (zip qs ps))"
proof (induction qs arbitrary: db ps)
  case Nil
  then show ?case by simp
next
  case (Cons q qs)
  from Cons.prems obtain p db1 ps' where
    e: "evaluate R (req_env q) db (req_article_id q) (req_user q) = (p, db1)"
    and s: "serve R db1 qs = (ps', db')" and ps: "ps = p # ps'"
    unfolding serve_Cons by blast
  from Cons.IH [OF s] evaluate_user_rows [OF e, of usr] ps show ?case by simp
qed

lemma extract_score_total: "\<exists>sc. extract_score dv s = Inr sc"
proof (cases "\<exists>i k. matches_at dv s i k")
  case True
  then obtain i k where "first_match dv s i k" using first_match_exists by blast
  from extract_score_first [OF this] show ?thesis by blast
next
  case False
  then have "extract_score dv s = Inr None" by (intro extract_score_none) blast
  then show ?thesis by blast
qed

lemma insert_evaluation_row:
  assumes "bind_param ident = Inr v" and "bind_param ttl = Inr w"
    and "\<not> has_surrogate rv" and "next_id db \<le> 9223372036854775807"
  shows "insert_evaluation rt t db u ident ttl sc rv =
      Inr (db\<lparr>rows := rows db @
               [\<lparr>col_id = next_id db, col_user = u, col_article_id = text_affinity rt v,
                 col_title = text_affinity rt w, col_score = sc, col_review = rv,
                 col_created_at = t\<rparr>],
             seq := next_id db\<rparr>)"
  using assms by (cases db) (simp add: insert_evaluation_def bind_exn_def bind_text_def)

lemma sample_score_line_first_match: "first_match ascii_digits sample_score_line 7 2"
proof -
  have m: "matches_at ascii_digits sample_score_line 7 2"
    by (simp add: matches_at_def sample_score_line_def is_digit_def ascii_digits_def score_unit_def
        numeral_2_eq_2 less_Suc_eq)
  have unit: "n = 9" if "n < 10" "sample_score_line ! n = score_unit" for n
  proof -
    have "n \<in> {0, 1, 2, 3, 4, 5, 6, 7, 8, 9}"
      using that(1) by simp arith
    then show ?thesis
      using that(2) by (auto simp: sample_score_line_def score_unit_def)
  qed
  have a: "7 \<le> i' \<and> (i' = 7 \<longrightarrow> k' \<le> 2)"
    if m': "matches_at ascii_digits sample_score_line i' k'" for i' k'
  proof -
    from m' have k: "1 \<le> k'" "k' \<le> 3" "i' + k' < 10"
        "\<forall>j<k'. is_digit ascii_digits (sample_score_line ! (i' + j))"
        "sample_score_line ! (i' + k') = score_unit"
      by (simp_all add: matches_at_def sample_score_line_def)
    from unit [OF k(3) k(5)] have s: "i' + k' = 9" .
    have "i' \<noteq> 6"
    proof
      assume "i' = 6"
      with s have "k' = 3" by simp
      then have "(0::nat) < k'" by simp
      with k(4) have "is_digit ascii_digits (sample_score_line ! (i' + 0))" by blast
      with \<open>i' = 6\<close> have "is_digit ascii_digits (sample_score_line ! 6)" by simp
      then show False by (simp add: sample_score_line_def is_digit_def ascii_digits_def)
    qed
    with s k(2) show ?thesis by linarith
  qed
  show ?thesis unfolding first_match_def using m a by blast
qed

lemma evaluate_try_Error_fetch:
  assumes "evaluate_try R E db aid u = Inr (Error msg, db')"
  shows "\<not> select_fails E \<and>
      (\<exists>fetched. get_qiita_article (qiita E) aid = Inr fetched \<and>
         (fetched = None \<or> (\<exists>v. fetched = Some v \<and> \<not> truthy v)))"
proof -
  from assms have sf: "\<not> select_fails E"
    by (auto simp: evaluate_try_def split: if_splits)
  from assms sf obtain fetched where
    f: "get_qiita_article (qiita E) aid = Inr fetched"
    by (auto simp: evaluate_try_def Let_def bind_exn_Inr)
  have "fetched = None \<or> (\<exists>v. fetched = Some v \<and> \<not> truthy v)"
  proof (rule ccontr)
    assume "\<not> (fetched = None \<or> (\<exists>v. fetched = Some v \<and> \<not> truthy v))"
    then obtain article where a: "fetched = Some article" "truthy article" by auto
    from assms sf f a have "bind_exn (evaluate_article_with_openai (repr R) (client E) article
       (select_past_reviews db u)) (\<lambda>evaluation.
            bind_exn (extract_score (decimal R) evaluation) (\<lambda>sc.
            bind_exn (get article key_id JNull) (\<lambda>ident.
            bind_exn (get article key_title JNull) (\<lambda>ttl.
            if insert_fails E then Inl DatabaseError
            else
              bind_exn (insert_evaluation (real_text R) (clock E) db u ident ttl sc evaluation) (\<lambda>db'.
              if commit_fails E then Inl DatabaseError
              else Inr (Evaluation u sc evaluation, db')))))) = Inr (Error msg, db')"
      by (simp add: evaluate_try_def Let_def bind_exn_def)
    then show False by (auto simp: bind_exn_Inr split: if_splits)
  qed
  with sf f show ?thesis by blast
qed

lemma get_qiita_article_Inr:
  "get_qiita_article api aid = Inr fetched \<Longrightarrow>
   (fetched = None \<longrightarrow> (\<exists>status_code b. api aid = Response status_code b \<and> status_code \<noteq> 200)) \<and>
   (\<forall>v. fetched = Some v \<longrightarrow> api aid = Response 200 (Parsed v))"
  by (auto simp: get_qiita_article_def split: http.splits body.splits if_splits)

lemma evaluate_article_error_iff:
  "fst (evaluate R E db aid u) = Error article_error \<longleftrightarrow>
     \<not> select_fails E \<and>
     (\<exists>status_code b. qiita E aid = Response status_code b \<and>
        (status_code \<noteq> 200 \<or> (\<exists>v. b = Parsed v \<and> \<not> truthy v)))"
  (is "?L \<longleftrightarrow> ?R")
proof
  assume l: ?L
  show ?R
  proof (cases "evaluate_try R E db aid u")
    case (Inl e)
    with l messages_differ show ?thesis by (simp add: evaluate_def)
  next
    case (Inr res)
    obtain p db' where res: "res = (p, db')" by (cases res)
    with Inr l have "evaluate_try R E db aid u = Inr (Error article_error, db')"
      by (simp add: evaluate_def)
    from evaluate_try_Error_fetch [OF this] obtain fetched where
      sf: "\<not> select_fails E" and f: "get_qiita_article (qiita E) aid = Inr fetched"
      and c: "fetched = None \<or> (\<exists>v. fetched = Some v \<and> \<not> truthy v)"
      by blast
    from get_qiita_article_Inr [OF f] c
    have "\<exists>status_code b. qiita E aid = Response status_code b \<and>
        (status_code \<noteq> 200 \<or> (\<exists>v. b = Parsed v \<and> \<not> truthy v))"
      by blast
    with sf show ?thesis by blast
  qed
next
  assume r: ?R
  then obtain status_code b where sf: "\<not> select_fails E"
    and q: "qiita E aid = Response status_code b"
    and c: "status_code \<noteq> 200 \<or> (\<exists>v. b = Parsed v \<and> \<not> truthy v)"
    by blast
  show ?L
  proof (cases "status_code = 200")
    case False
    with q have "get_qiita_article (qiita E) aid = Inr None" by (simp add: get_qiita_article_def)
    from evaluate_not_found [OF this, of R db u] sf show ?thesis by simp
  next
    case True
    with c obtain v where v: "b = Parsed v" "\<not> truthy v" by blast
    with q True have "get_qiita_article (qiita E) aid = Inr (Some v)"
      by (simp add: get_qiita_article_def)
    from evaluate_not_found [OF this, of R db u] v sf show ?thesis by simp
  qed
qed

lemma collect_tag_name:
  "\<forall>t \<in> set tags. \<exists>kv nm. t = JObj kv \<and> map_of kv key_name = Some (JStr nm) \<Longrightarrow>
   \<exists>names. collect tag_name tags = Inr (map JStr names)"
proof (induction tags)
  case Nil
  show ?case by (intro exI [of _ "[]"]) simp
next
  case (Cons t tags)
  from Cons.prems obtain kv nm where t: "t = JObj kv" "map_of kv key_name = Some (JStr nm)"
    by auto
  from Cons obtain names where n: "collect tag_name tags = Inr (map JStr names)" by auto
  show ?case
    by (intro exI [of _ "nm # names"]) (simp add: t n bind_exn_def)
qed

lemma collect_as_str: "collect as_str (map JStr names) = Inr names"
  by (induction names) (simp_all add: bind_exn_def)

lemma build_prompt_well_formed:
  assumes "get article key_tags (JArr []) = Inr (JArr tags)"
    and "\<forall>t \<in> set tags. \<exists>kv nm. t = JObj kv \<and> map_of kv key_name = Some (JStr nm)"
    and "get article key_body (JStr []) = Inr (JStr body_text)"
  shows "\<exists>pre. \<forall>past. build_prompt rp article past = Inr (pre @ history_prompt past @ prompt_7)"
proof -
  from assms(1) obtain kvs where a: "article = JObj kvs" by (cases article) auto
  from collect_tag_name [OF assms(2)] obtain names where
    n: "collect tag_name tags = Inr (map JStr names)" by blast
  have j: "join comma_space (map JStr names) = Inr (join_strs comma_space names)"
    by (simp add: join_def collect_as_str bind_exn_def)
  obtain lk cm tt where g: "get article key_likes_count (JInt 0) = Inr lk"
    "get article key_comments_count (JInt 0) = Inr cm" "get article key_title (JStr []) = Inr tt"
    by (simp add: a)
  let ?pre = "prompt_0 @ str rp tt @ prompt_1 @ body_text @ prompt_2 @ digits_of (length body_text) @
      prompt_3 @ str rp lk @ prompt_4 @ str rp cm @ prompt_5 @ join_strs comma_space names @
      prompt_6"
  have "build_prompt rp article past = Inr (?pre @ history_prompt past @ prompt_7)" for past
    by (simp add: build_prompt_def assms(1,3) n j g bind_exn_def)
  then show ?thesis by blast
qed

lemma evaluate_user_scores:
  assumes "evaluate R E db aid u = (p, db1)"
  shows "map (\<lambda>r. (col_score r, col_created_at r)) (filter (\<lambda>r. col_user r = usr) (rows db1)) =
      map (\<lambda>r. (col_score r, col_created_at r)) (filter (\<lambda>r. col_user r = usr) (rows db)) @
      (if u = usr \<and> is_evaluation p then [(payload_score p, clock E)] else [])"
  using evaluate_outcome [of R E db aid u] assms by auto

lemma serve_user_scores:
  "serve R db qs = (ps, db') \<Longrightarrow>
   map (\<lambda>r. (col_score r, col_created_at r)) (filter (\<lambda>r. col_user r = usr) (rows db')) =
     map (\<lambda>r. (col_score r, col_created_at r)) (filter (\<lambda>r. col_user r = usr) (rows db)) @
     map (\<lambda>(q, p). (payload_score p, clock (req_env q)))
       (filter (\<lambda>(q, p). req_user q = usr \<and> is_evaluation p) (zip qs ps))"
proof (induction qs arbitrary: db ps)
  case Nil
  then show ?case by simp
next
  case (Cons q qs)
  from Cons.prems obtain p db1 ps' where
    e: "evaluate R (req_env q) db (req_article_id q) (req_user q) = (p, db1)"
    and s: "serve R db1 qs = (ps', db')" and ps: "ps = p # ps'"
    unfolding serve_Cons by blast
  from Cons.IH [OF s] evaluate_user_scores [OF e, of usr] ps show ?case by simp
qed

lemma get_user_history_rows:
  "\<exists>hs. get_user_history False db usr = History usr hs \<and>
     length hs = length (filter (\<lambda>r. col_user r = usr) (rows db)) \<and>
     sorted_wrt (\<lambda>a b. h_created_at b \<le> h_created_at a) hs \<and>
     mset hs =
       mset (map (\<lambda>r. \<lparr>h_article_id = col_article_id r, h_title = col_title r,
                         h_score = col_score r, h_created_at = col_created_at r\<rparr>)
              (filter (\<lambda>r. col_user r = usr) (rows db)))"
proof -
  let ?rs = "order_by_desc col_created_at (filter (\<lambda>r. col_user r = usr) (rows db))"
  have "sorted_wrt (\<lambda>a b. col_created_at b \<le> col_created_at a) ?rs"
    by (rule order_by_desc_sorted)
  moreover have "mset ?rs = mset (filter (\<lambda>r. col_user r = usr) (rows db))"
    by (simp add: order_by_desc_def)
  ultimately show ?thesis
    by (simp add: get_user_history_def order_by_desc_length sorted_wrt_map)
qed

lemma sample_history_entries:
  "get_user_history False \<lparr>rows = [sample_row 1 100, sample_row 2 200], seq = 2\<rparr> sample_user =
     History sample_user [sample_entry 200, sample_entry 100]"
  by (simp add: get_user_history_def order_by_desc_def sample_row_def sample_entry_def)

















section \<open>The claims\<close>

text \<open>
  \<^bold>\<open>C1.\<close> For every text \<open>s\<close>, the score extraction of lines 140-141 does not raise and
  returns: the integer that the digits of the first match of "1-3 digits immediately
  followed by the score unit" denote, when \<open>s\<close> contains such a substring (then there is a
  first match); \<open>None\<close> when it contains none. \<open>evaluate\<close> applies it to the normalized
  evaluation text: a returned evaluation has as score the result of the extraction on its
  review, and the appended row stores that score with that review; and when the article is
  fetched, the prompt is built, the language model answers with a text and the database
  accepts the row, the request succeeds with the extracted score, whatever the text is.
\<close>

theorem evaluate_score_first_match:
  "((\<exists>i k. matches_at dv s i k) \<longrightarrow> (\<exists>i k. first_match dv s i k)) \<and>
   (\<forall>i k. first_match dv s i k \<longrightarrow>
      extract_score dv s = Inr (Some (digits_value dv (take k (drop i s))))) \<and>
   ((\<forall>i k. \<not> matches_at dv s i k) \<longrightarrow> extract_score dv s = Inr None) \<and>
   (evaluate R E db article_id usr = (Evaluation usr' sc rv, db') \<longrightarrow>
      extract_score (decimal R) rv = Inr sc \<and>
      (\<exists>r. rows db' = rows db @ [r] \<and> col_score r = sc \<and> col_review r = rv)) \<and>
   (\<not> select_fails E \<and> qiita E article_id = Response 200 (Parsed article) \<and> truthy article \<and>
    build_prompt (repr R) article (select_past_reviews db usr) = Inr prompt \<and>
    client E prompt = Content (Some result) \<and>
    get article key_id JNull = Inr ident \<and> bind_param ident = Inr v_id \<and>
    get article key_title JNull = Inr ttl \<and> bind_param ttl = Inr v_title \<and>
    \<not> has_surrogate (clean_result result) \<and> next_id db \<le> 9223372036854775807 \<and>
    \<not> insert_fails E \<and> \<not> commit_fails E \<longrightarrow>
      (\<exists>score. extract_score (decimal R) (clean_result result) = Inr score \<and>
         evaluate R E db article_id usr =
           (Evaluation usr score (clean_result result),
            db\<lparr>rows := rows db @
                 [\<lparr>col_id = next_id db, col_user = usr,
                   col_article_id = text_affinity (real_text R) v_id,
                   col_title = text_affinity (real_text R) v_title,
                   col_score = score, col_review = clean_result result,
                   col_created_at = clock E\<rparr>],
               seq := next_id db\<rparr>)))"
proof -
  have a: "(\<exists>i k. matches_at dv s i k) \<longrightarrow> (\<exists>i k. first_match dv s i k)"
    using first_match_exists by blast
  have b: "\<forall>i k. first_match dv s i k \<longrightarrow>
      extract_score dv s = Inr (Some (digits_value dv (take k (drop i s))))"
    using extract_score_first by blast
  have c: "(\<forall>i k. \<not> matches_at dv s i k) \<longrightarrow> extract_score dv s = Inr None"
    using extract_score_none by blast
  have d: "extract_score (decimal R) rv = Inr sc \<and>
      (\<exists>r. rows db' = rows db @ [r] \<and> col_score r = sc \<and> col_review r = rv)"
    if h: "evaluate R E db article_id usr = (Evaluation usr' sc rv, db')"
  proof -
    from evaluate_try_Evaluation [OF evaluate_Evaluation [OF h]] obtain ident ttl where
      e: "extract_score (decimal R) rv = Inr sc"
      and i: "insert_evaluation (real_text R) (clock E) db usr ident ttl sc rv = Inr db'"
      by blast
    from insert_evaluation_Inr [OF i] e show ?thesis by blast
  qed
  have e: "\<exists>score. extract_score (decimal R) (clean_result result) = Inr score \<and>
         evaluate R E db article_id usr =
           (Evaluation usr score (clean_result result),
            db\<lparr>rows := rows db @
                 [\<lparr>col_id = next_id db, col_user = usr,
                   col_article_id = text_affinity (real_text R) v_id,
                   col_title = text_affinity (real_text R) v_title,
                   col_score = score, col_review = clean_result result,
                   col_created_at = clock E\<rparr>],
               seq := next_id db\<rparr>)"
    if h: "\<not> select_fails E" "qiita E article_id = Response 200 (Parsed article)"
      "truthy article"
      "build_prompt (repr R) article (select_past_reviews db usr) = Inr prompt"
      "client E prompt = Content (Some result)"
      "get article key_id JNull = Inr ident" "bind_param ident = Inr v_id"
      "get article key_title JNull = Inr ttl" "bind_param ttl = Inr v_title"
      "\<not> has_surrogate (clean_result result)" "next_id db \<le> 9223372036854775807"
      "\<not> insert_fails E" "\<not> commit_fails E"
  proof -
    obtain score where s: "extract_score (decimal R) (clean_result result) = Inr score"
      using extract_score_total by blast
    note ins = insert_evaluation_row [OF h(7) h(9) h(10) h(11), of "real_text R" "clock E" usr score]
    from evaluate_success [OF h(1) h(2) h(3) h(4) h(5) s h(6) h(8) h(12) ins h(13)] s
    show ?thesis by blast
  qed
  from a b c d e show ?thesis by blast
qed


theorem evaluate_score_first_match_witness:
  "first_match ascii_digits sample_score_line 7 2 \<and>
   extract_score ascii_digits sample_score_line = Inr (Some 85) \<and>
   evaluate sample_runtime
     (quiet_env (Response 200 (Parsed sample_article)) (Content (Some sample_score_line)) 100)
     init_db sample_id sample_user =
     (Evaluation sample_user (Some 85) sample_score_line,
      \<lparr>rows = [(sample_row 1 100)\<lparr>col_review := sample_score_line\<rparr>], seq = 1\<rparr>)"
proof -
  let ?E = "quiet_env (Response 200 (Parsed sample_article)) (Content (Some sample_score_line)) 100"
  obtain p where p: "build_prompt (repr sample_runtime) sample_article
      (select_past_reviews init_db sample_user) = Inr p"
    using sample_prompt by blast
  note t = evaluate_score_first_match [where dv = ascii_digits and s = sample_score_line
      and R = sample_runtime and E = ?E and db = init_db and article_id = sample_id
      and usr = sample_user and article = sample_article and prompt = p
      and result = sample_score_line and ident = "JStr sample_id" and v_id = "SText sample_id"
      and ttl = "JStr [84, 105, 116, 108, 101]" and v_title = "SText [84, 105, 116, 108, 101]"]
  have c: "clean_result sample_score_line = sample_score_line"
    by (simp add: clean_result_def sample_score_line_def replace_def strip_def isspace_def)
  have v: "digits_value ascii_digits (take 2 (drop 7 sample_score_line)) = 85"
    by (simp add: digits_value_def sample_score_line_def ascii_digits_def)
  from t sample_score_line_first_match
  have "extract_score ascii_digits sample_score_line =
      Inr (Some (digits_value ascii_digits (take 2 (drop 7 sample_score_line))))"
    by blast
  then have x: "extract_score ascii_digits sample_score_line = Inr (Some 85)"
    by (simp only: v)
  have h: "\<not> select_fails ?E" "qiita ?E sample_id = Response 200 (Parsed sample_article)"
    "truthy sample_article" "client ?E p = Content (Some sample_score_line)"
    "get sample_article key_id JNull = Inr (JStr sample_id)"
    "bind_param (JStr sample_id) = Inr (SText sample_id)"
    "get sample_article key_title JNull = Inr (JStr [84, 105, 116, 108, 101])"
    "bind_param (JStr [84, 105, 116, 108, 101]) = Inr (SText [84, 105, 116, 108, 101])"
    "next_id init_db \<le> 9223372036854775807" "\<not> insert_fails ?E" "\<not> commit_fails ?E"
    by (simp_all add: quiet_env_def sample_article_def key_defs sample_id_def bind_text_def
        has_surrogate_def next_id_def init_db_def)
  have g: "\<not> has_surrogate (clean_result sample_score_line)"
    unfolding c by (simp add: has_surrogate_def sample_score_line_def)
  from t p h g obtain score where
    s: "extract_score (decimal sample_runtime) (clean_result sample_score_line) = Inr score"
    and e: "evaluate sample_runtime ?E init_db sample_id sample_user =
           (Evaluation sample_user score (clean_result sample_score_line),
            init_db\<lparr>rows := rows init_db @
                 [\<lparr>col_id = next_id init_db, col_user = sample_user,
                   col_article_id = text_affinity (real_text sample_runtime) (SText sample_id),
                   col_title = text_affinity (real_text sample_runtime) (SText [84, 105, 116, 108, 101]),
                   col_score = score, col_review = clean_result sample_score_line,
                   col_created_at = clock ?E\<rparr>],
               seq := next_id init_db\<rparr>)"
    by blast
  from s x have "score = Some 85" by (simp add: c sample_runtime_def)
  with e have "evaluate sample_runtime ?E init_db sample_id sample_user =
     (Evaluation sample_user (Some 85) sample_score_line,
      \<lparr>rows = [(sample_row 1 100)\<lparr>col_review := sample_score_line\<rparr>], seq = 1\<rparr>)"
    by (simp add: c init_db_def next_id_def sample_row_def quiet_env_def)
  with sample_score_line_first_match x show ?thesis by blast
qed

text \<open>
  \<^bold>\<open>C2.\<close> When the content API answers the request for the article with a status other
  than 200, \<open>evaluate\<close> returns an error payload and the store is the one before the
  request. The message is the article message, unless reading the history had already
  failed, which gives the generic one.
\<close>

theorem evaluate_status_not_200:
  assumes "qiita E article_id = Response status_code b" and "status_code \<noteq> 200"
  shows "evaluate R E db article_id usr =
      (Error (if select_fails E then unexpected_error else article_error), db)"
proof -
  have "get_qiita_article (qiita E) article_id = Inr None"
    using assms by (simp add: get_qiita_article_def)
  then show ?thesis by (rule evaluate_not_found) simp
qed

theorem evaluate_status_not_200_witness:
  "qiita (quiet_env (Response 404 Unparsable) ApiError 100) sample_id = Response 404 Unparsable \<and>
   (404::nat) \<noteq> 200 \<and>
   evaluate sample_runtime (quiet_env (Response 404 Unparsable) ApiError 100) init_db sample_id
     sample_user = (Error article_error, init_db)"
proof -
  have q: "qiita (quiet_env (Response 404 Unparsable) ApiError 100) sample_id =
      Response 404 Unparsable"
    by (simp add: quiet_env_def)
  have n: "(404::nat) \<noteq> 200" by simp
  from evaluate_status_not_200 [OF q n, of sample_runtime init_db sample_user]
  have "evaluate sample_runtime (quiet_env (Response 404 Unparsable) ApiError 100) init_db
      sample_id sample_user = (Error article_error, init_db)"
    by (simp add: quiet_env_def)
  with q n show ?thesis by blast
qed




text \<open>
  \<^bold>\<open>C4.\<close> For a history \<open>past\<close> given oldest first: if it is not empty, the history part
  of the prompt is the header, then one line per entry, the line of index \<open>i + 1\<close> (counted
  from 1) made of the entry that is \<open>i\<close> places before the newest one, with the index in
  decimal, the score of the entry and the first 100 characters of its review, and then the
  instruction to compare with the past evaluations; if it is empty, the history part is
  the sentence that this is the first evaluation. For an article whose tags are a list of
  objects with a string as name and whose body is a string (or which has no tags, or no
  body), the builder returns a prompt for every history: a text that does not depend on
  the history, then the history part, then the closing instructions. Whenever a prompt is
  built at all, it ends with the history part and the closing instructions.
\<close>

theorem history_prompt_digest:
  "(past \<noteq> [] \<longrightarrow>
      history_prompt past =
        history_header @
        concat (map (\<lambda>i. line_bullet @ digits_of (Suc i) @ line_score @
                          str_score (fst (past ! (length past - Suc i))) @ line_summary @
                          take 100 (snd (past ! (length past - Suc i))) @ line_end)
                  [0..<length past]) @
        history_footer) \<and>
   (past = [] \<longrightarrow> history_prompt past = first_evaluation) \<and>
   (get article key_tags (JArr []) = Inr (JArr tags) \<and>
    (\<forall>t \<in> set tags. \<exists>kv nm. t = JObj kv \<and> map_of kv key_name = Some (JStr nm)) \<and>
    get article key_body (JStr []) = Inr (JStr body_text) \<longrightarrow>
      (\<exists>pre. \<forall>past'. build_prompt rp article past' =
         Inr (pre @ history_prompt past' @ prompt_7))) \<and>
   (build_prompt rp article past = Inr p \<longrightarrow> (\<exists>pre. p = pre @ history_prompt past @ prompt_7))"
proof -
  have l: "history_prompt past =
     (if past = [] then first_evaluation
      else history_header @
        concat (map (\<lambda>i. line_bullet @ digits_of (Suc i) @ line_score @
                          str_score (fst (past ! (length past - Suc i))) @ line_summary @
                          take 100 (snd (past ! (length past - Suc i))) @ line_end)
                  [0..<length past]) @
        history_footer)"
    using history_digest_lines [of past] by (simp only: history_line_def)
  have "past \<noteq> [] \<longrightarrow> history_prompt past =
        history_header @
        concat (map (\<lambda>i. line_bullet @ digits_of (Suc i) @ line_score @
                          str_score (fst (past ! (length past - Suc i))) @ line_summary @
                          take 100 (snd (past ! (length past - Suc i))) @ line_end)
                  [0..<length past]) @
        history_footer"
    by (subst l) simp
  moreover have "past = [] \<longrightarrow> history_prompt past = first_evaluation"
    by (subst l) simp
  moreover have "build_prompt rp article past = Inr p \<longrightarrow>
      (\<exists>pre. p = pre @ history_prompt past @ prompt_7)"
    using build_prompt_history [of rp article past p] by blast
  moreover have "get article key_tags (JArr []) = Inr (JArr tags) \<and>
    (\<forall>t \<in> set tags. \<exists>kv nm. t = JObj kv \<and> map_of kv key_name = Some (JStr nm)) \<and>
    get article key_body (JStr []) = Inr (JStr body_text) \<longrightarrow>
      (\<exists>pre. \<forall>past'. build_prompt rp article past' =
         Inr (pre @ history_prompt past' @ prompt_7))"
    using build_prompt_well_formed [of article tags body_text rp] by blast
  ultimately show ?thesis by blast
qed

theorem history_prompt_digest_witness:
  "history_prompt sample_history =
     history_header @
     (line_bullet @ [49] @ line_score @ str_None @ line_summary @ [110, 101, 119] @ line_end) @
     (line_bullet @ [50] @ line_score @ [55, 48] @ line_summary @ [111, 108, 100] @ line_end) @
     history_footer \<and>
   (\<exists>pre. build_prompt (repr sample_runtime) sample_article sample_history =
      Inr (pre @
        (history_header @
         (line_bullet @ [49] @ line_score @ str_None @ line_summary @ [110, 101, 119] @ line_end) @
         (line_bullet @ [50] @ line_score @ [55, 48] @ line_summary @ [111, 108, 100] @ line_end) @
         history_footer) @
        prompt_7)) \<and>
   (\<exists>pre. build_prompt (repr sample_runtime) sample_article [] =
      Inr (pre @ first_evaluation @ prompt_7))"
proof -
  note t = history_prompt_digest [where article = sample_article and rp = "repr sample_runtime"
      and tags = "[JObj [(key_name, JStr [112, 121, 116, 104, 111, 110])],
                   JObj [(key_name, JStr [97, 112, 105])]]"
      and body_text = "[104, 101, 108, 108, 111]"]
  have u: "[0..<length sample_history] = [0, 1]"
    by (simp add: sample_history_def upt_rec)
  have d: "digits_of (Suc 0) = [49]" "digits_of (Suc (Suc 0)) = [50]" "str_int 70 = [55, 48]"
    by (simp_all add: digits_of.simps str_int_def)
  have ne: "sample_history \<noteq> []" by (simp add: sample_history_def)
  from t [where past = sample_history] ne
  have "history_prompt sample_history =
        history_header @
        concat (map (\<lambda>i. line_bullet @ digits_of (Suc i) @ line_score @
                          str_score (fst (sample_history ! (length sample_history - Suc i))) @
                          line_summary @
                          take 100 (snd (sample_history ! (length sample_history - Suc i))) @
                          line_end)
                  [0..<length sample_history]) @
        history_footer"
    by blast
  then have h: "history_prompt sample_history =
     history_header @
     (line_bullet @ [49] @ line_score @ str_None @ line_summary @ [110, 101, 119] @ line_end) @
     (line_bullet @ [50] @ line_score @ [55, 48] @ line_summary @ [111, 108, 100] @ line_end) @
     history_footer"
    unfolding u by (simp add: sample_history_def d str_score_def)
  have e: "history_prompt [] = first_evaluation" using t [where past = "[]"] by blast
  have w: "get sample_article key_tags (JArr []) =
        Inr (JArr [JObj [(key_name, JStr [112, 121, 116, 104, 111, 110])],
                   JObj [(key_name, JStr [97, 112, 105])]])"
    "\<forall>t \<in> set [JObj [(key_name, JStr [112, 121, 116, 104, 111, 110])],
                 JObj [(key_name, JStr [97, 112, 105])]].
        \<exists>kv nm. t = JObj kv \<and> map_of kv key_name = Some (JStr nm)"
    "get sample_article key_body (JStr []) = Inr (JStr [104, 101, 108, 108, 111])"
    by (simp_all add: sample_article_def key_defs)
  with t [where past = "[]"] obtain pre where
    b: "\<forall>past'. build_prompt (repr sample_runtime) sample_article past' =
         Inr (pre @ history_prompt past' @ prompt_7)"
    by blast
  from b have "build_prompt (repr sample_runtime) sample_article sample_history =
      Inr (pre @ history_prompt sample_history @ prompt_7)" by blast
  moreover from b have "build_prompt (repr sample_runtime) sample_article [] =
      Inr (pre @ history_prompt [] @ prompt_7)" by blast
  ultimately show ?thesis unfolding h e using h by blast
qed

text \<open>
  \<^bold>\<open>C5.\<close> Let a store hold no row of a user, and let a sequence of \<open>evaluate\<close> requests
  (of any users, with any outcomes) be served from it. Then the rows of the user in the
  store are those of the successful requests of the user, in the order of the requests,
  each with the score that was returned and the time of its insertion; and
  \<open>get_user_history\<close>, when its SELECT does not fail, returns for that user exactly these
  rows as records (as many as requests of the user were successful), ordered by
  \<open>created_at\<close>, newest first.
\<close>

theorem history_after_successful_evaluations:
  assumes "\<forall>r \<in> set (rows db). col_user r \<noteq> usr"
    and "serve R db qs = (ps, db')"
  shows "\<exists>hs. get_user_history False db' usr = History usr hs \<and>
           length hs =
             length (filter (\<lambda>(q, p). req_user q = usr \<and> is_evaluation p) (zip qs ps)) \<and>
           sorted_wrt (\<lambda>a b. h_created_at b \<le> h_created_at a) hs \<and>
           mset hs =
             mset (map (\<lambda>r. \<lparr>h_article_id = col_article_id r, h_title = col_title r,
                               h_score = col_score r, h_created_at = col_created_at r\<rparr>)
                    (filter (\<lambda>r. col_user r = usr) (rows db'))) \<and>
           map (\<lambda>r. (col_score r, col_created_at r))
               (filter (\<lambda>r. col_user r = usr) (rows db')) =
             map (\<lambda>(q, p). (payload_score p, clock (req_env q)))
               (filter (\<lambda>(q, p). req_user q = usr \<and> is_evaluation p) (zip qs ps))"
proof -
  from assms(1) have e: "filter (\<lambda>r. col_user r = usr) (rows db) = []"
    by (simp add: filter_empty_conv)
  from serve_user_rows [OF assms(2), of usr] e
  have n: "length (filter (\<lambda>r. col_user r = usr) (rows db')) =
      length (filter (\<lambda>(q, p). req_user q = usr \<and> is_evaluation p) (zip qs ps))"
    by simp
  from serve_user_scores [OF assms(2), of usr] e
  have s: "map (\<lambda>r. (col_score r, col_created_at r))
               (filter (\<lambda>r. col_user r = usr) (rows db')) =
             map (\<lambda>(q, p). (payload_score p, clock (req_env q)))
               (filter (\<lambda>(q, p). req_user q = usr \<and> is_evaluation p) (zip qs ps))"
    by simp
  from get_user_history_rows [of db' usr] obtain hs where
    h: "get_user_history False db' usr = History usr hs"
      "length hs = length (filter (\<lambda>r. col_user r = usr) (rows db'))"
      "sorted_wrt (\<lambda>a b. h_created_at b \<le> h_created_at a) hs"
      "mset hs =
       mset (map (\<lambda>r. \<lparr>h_article_id = col_article_id r, h_title = col_title r,
                         h_score = col_score r, h_created_at = col_created_at r\<rparr>)
              (filter (\<lambda>r. col_user r = usr) (rows db')))"
    by blast
  from h(2) n have "length hs =
      length (filter (\<lambda>(q, p). req_user q = usr \<and> is_evaluation p) (zip qs ps))" by simp
  with h s show ?thesis by blast
qed

theorem history_after_successful_evaluations_witness:
  "serve sample_runtime init_db sample_requests =
     ([Evaluation sample_user (Some 85) sample_review,
       Evaluation sample_user (Some 85) sample_review],
      \<lparr>rows = [sample_row 1 100, sample_row 2 200], seq = 2\<rparr>) \<and>
   get_user_history False \<lparr>rows = [sample_row 1 100, sample_row 2 200], seq = 2\<rparr> sample_user =
     History sample_user [sample_entry 200, sample_entry 100] \<and>
   length [sample_entry 200, sample_entry 100] = 2 \<and>
   sorted_wrt (\<lambda>a b. h_created_at b \<le> h_created_at a) [sample_entry 200, sample_entry 100] \<and>
   map h_created_at [sample_entry 200, sample_entry 100] = [200, 100]"
proof -
  have e: "\<forall>r \<in> set (rows init_db). col_user r \<noteq> sample_user" by (simp add: init_db_def)
  have n: "length (filter (\<lambda>(q, p). req_user q = sample_user \<and> is_evaluation p)
      (zip sample_requests [Evaluation sample_user (Some 85) sample_review,
         Evaluation sample_user (Some 85) sample_review])) = 2"
    by (simp add: sample_requests_def)
  from history_after_successful_evaluations [OF e sample_serve] obtain hs where
    h: "get_user_history False \<lparr>rows = [sample_row 1 100, sample_row 2 200], seq = 2\<rparr>
          sample_user = History sample_user hs"
      "length hs = length (filter (\<lambda>(q, p). req_user q = sample_user \<and> is_evaluation p)
         (zip sample_requests [Evaluation sample_user (Some 85) sample_review,
            Evaluation sample_user (Some 85) sample_review]))"
      "sorted_wrt (\<lambda>a b. h_created_at b \<le> h_created_at a) hs"
    by blast
  from h(1) sample_history_entries have hs: "hs = [sample_entry 200, sample_entry 100]" by simp
  from h(2) n hs have "length [sample_entry 200, sample_entry 100] = 2" by simp
  moreover from h(3) hs
  have "sorted_wrt (\<lambda>a b. h_created_at b \<le> h_created_at a) [sample_entry 200, sample_entry 100]"
    by simp
  moreover have "map h_created_at [sample_entry 200, sample_entry 100] = [200, 100]"
    by (simp add: sample_entry_def)
  ultimately show ?thesis using sample_serve sample_history_entries by blast
qed

text \<open>
  \<^bold>\<open>C6.\<close> Every request ends in one of two ways: the evaluation is returned and the
  store has exactly one more row, the one of this request, after the rows it had; or an
  error payload is returned and the store is unchanged.
\<close>

theorem evaluate_one_row_or_none:
  "(\<exists>sc rv r. evaluate R E db article_id usr =
        (Evaluation usr sc rv, db\<lparr>rows := rows db @ [r], seq := next_id db\<rparr>) \<and>
      col_user r = usr \<and> col_score r = sc \<and> col_review r = rv) \<or>
   (\<exists>msg. evaluate R E db article_id usr = (Error msg, db))"
  using evaluate_outcome [of R E db article_id usr] by blast

theorem evaluate_one_row_or_none_witness:
  "rows (snd (evaluate sample_runtime (sample_env 100) init_db sample_id sample_user)) =
     rows init_db @ [sample_row 1 100] \<and>
   snd (evaluate sample_runtime (quiet_env (Response 200 Unparsable) ApiError 100) init_db
     sample_id sample_user) = init_db"
proof -
  have "rows (snd (evaluate sample_runtime (sample_env 100) init_db sample_id sample_user)) =
     rows init_db @ [sample_row 1 100]"
    unfolding sample_evaluate_first by (simp add: init_db_def)
  moreover from evaluate_one_row_or_none [of sample_runtime
      "quiet_env (Response 200 Unparsable) ApiError 100" init_db sample_id sample_user]
  have "snd (evaluate sample_runtime (quiet_env (Response 200 Unparsable) ApiError 100) init_db
     sample_id sample_user) = init_db"
    by (auto simp: evaluate_def evaluate_try_def get_qiita_article_def bind_exn_def quiet_env_def)
  ultimately show ?thesis by blast
qed

text \<open>
  \<^bold>\<open>C7\<close> (as the code has it). When the content API answers with status 200 and a body
  that is not JSON, \<open>response.json()\<close> raises, the handler catches the exception, and
  \<open>evaluate\<close> returns the generic message and leaves the store unchanged. The generic
  message is not the message for an article that was not found; that one is returned
  exactly when reading the history did not fail and the content API answered with a status
  other than 200 or with status 200 and a falsy JSON value.
\<close>

theorem evaluate_unparsable_body:
  "(qiita E article_id = Response 200 Unparsable \<longrightarrow>
      evaluate R E db article_id usr = (Error unexpected_error, db)) \<and>
   unexpected_error \<noteq> article_error \<and>
   (fst (evaluate R E db article_id usr) = Error article_error \<longleftrightarrow>
      \<not> select_fails E \<and>
      (\<exists>status_code b. qiita E article_id = Response status_code b \<and>
         (status_code \<noteq> 200 \<or> (\<exists>v. b = Parsed v \<and> \<not> truthy v))))"
proof -
  have "evaluate R E db article_id usr = (Error unexpected_error, db)"
    if "qiita E article_id = Response 200 Unparsable"
  proof -
    have "get_qiita_article (qiita E) article_id = Inl JSONDecodeError"
      using that by (simp add: get_qiita_article_def)
    then show ?thesis by (simp add: evaluate_def evaluate_try_def bind_exn_def)
  qed
  with messages_differ evaluate_article_error_iff [of R E db article_id usr]
  show ?thesis by blast
qed

theorem evaluate_unparsable_body_witness:
  "qiita (quiet_env (Response 200 Unparsable) ApiError 100) sample_id = Response 200 Unparsable \<and>
   evaluate sample_runtime (quiet_env (Response 200 Unparsable) ApiError 100) init_db sample_id
     sample_user = (Error unexpected_error, init_db) \<and>
   fst (evaluate sample_runtime (quiet_env (Response 404 Unparsable) ApiError 100) init_db sample_id
     sample_user) = Error article_error \<and>
   fst (evaluate sample_runtime (quiet_env (Response 200 (Parsed JNull)) ApiError 100) init_db
     sample_id sample_user) = Error article_error"
proof -
  have q: "qiita (quiet_env (Response 200 Unparsable) ApiError 100) sample_id =
      Response 200 Unparsable"
    by (simp add: quiet_env_def)
  from evaluate_unparsable_body [of "quiet_env (Response 200 Unparsable) ApiError 100" sample_id
      sample_runtime init_db sample_user] q
  have a: "evaluate sample_runtime (quiet_env (Response 200 Unparsable) ApiError 100) init_db
      sample_id sample_user = (Error unexpected_error, init_db)"
    by blast
  have "\<not> select_fails (quiet_env (Response 404 Unparsable) ApiError 100) \<and>
      (\<exists>status_code b. qiita (quiet_env (Response 404 Unparsable) ApiError 100) sample_id =
         Response status_code b \<and> (status_code \<noteq> 200 \<or> (\<exists>v. b = Parsed v \<and> \<not> truthy v)))"
    by (simp add: quiet_env_def)
  with evaluate_unparsable_body [of "quiet_env (Response 404 Unparsable) ApiError 100" sample_id
      sample_runtime init_db sample_user]
  have b: "fst (evaluate sample_runtime (quiet_env (Response 404 Unparsable) ApiError 100) init_db
      sample_id sample_user) = Error article_error"
    by blast
  have "\<not> select_fails (quiet_env (Response 200 (Parsed JNull)) ApiError 100) \<and>
      (\<exists>status_code b. qiita (quiet_env (Response 200 (Parsed JNull)) ApiError 100) sample_id =
         Response status_code b \<and> (status_code \<noteq> 200 \<or> (\<exists>v. b = Parsed v \<and> \<not> truthy v)))"
    by (simp add: quiet_env_def)
  with evaluate_unparsable_body [of "quiet_env (Response 200 (Parsed JNull)) ApiError 100"
      sample_id sample_runtime init_db sample_user]
  have c: "fst (evaluate sample_runtime (quiet_env (Response 200 (Parsed JNull)) ApiError 100)
      init_db sample_id sample_user) = Error article_error"
    by blast
  from q a b c show ?thesis by blast
qed

text \<open>The claim as the specification states it fails: for an unparsable body the message
  is the generic one, for status 404 it is the article message, and the two differ.\<close>

theorem malformed_response_counterexample:
  "evaluate sample_runtime (quiet_env (Response 200 Unparsable) ApiError 100) init_db sample_id
     sample_user = (Error unexpected_error, init_db) \<and>
   evaluate sample_runtime (quiet_env (Response 404 Unparsable) ApiError 100) init_db sample_id
     sample_user = (Error article_error, init_db) \<and>
   unexpected_error \<noteq> article_error"
  by (simp add: evaluate_def evaluate_try_def get_qiita_article_def bind_exn_def quiet_env_def
      unexpected_error_def article_error_def)

text \<open>
  \<^bold>\<open>C8.\<close> Two successful requests with the same article identifier and the same user, one
  after the other, leave two rows after the rows that were there: both of that user, the
  second with a larger \<open>id\<close> than the first, and the first with a larger \<open>id\<close> than every
  row before. When the content API gave the same answer both times, the two rows hold the
  same \<open>article_id\<close> and \<open>title\<close> as well: nothing removes or refuses the repetition.
\<close>

theorem evaluate_twice_two_rows:
  assumes "evaluate R E1 db article_id usr = (Evaluation u1 sc1 rv1, db1)"
    and "evaluate R E2 db1 article_id usr = (Evaluation u2 sc2 rv2, db2)"
  shows "\<exists>r1 r2. rows db2 = rows db @ [r1, r2] \<and> col_id r1 < col_id r2 \<and>
           col_user r1 = usr \<and> col_user r2 = usr \<and>
           (\<forall>r \<in> set (rows db). col_id r < col_id r1) \<and>
           (qiita E1 article_id = qiita E2 article_id \<longrightarrow>
              col_article_id r1 = col_article_id r2 \<and> col_title r1 = col_title r2)"
proof -
  from evaluate_try_Evaluation [OF evaluate_Evaluation [OF assms(1)]]
  obtain a1 i1 t1 where
    q1: "qiita E1 article_id = Response 200 (Parsed a1)"
    and g1: "get a1 key_id JNull = Inr i1" "get a1 key_title JNull = Inr t1"
    and ins1: "insert_evaluation (real_text R) (clock E1) db usr i1 t1 sc1 rv1 = Inr db1"
    by blast
  from evaluate_try_Evaluation [OF evaluate_Evaluation [OF assms(2)]]
  obtain a2 i2 t2 where
    q2: "qiita E2 article_id = Response 200 (Parsed a2)"
    and g2: "get a2 key_id JNull = Inr i2" "get a2 key_title JNull = Inr t2"
    and ins2: "insert_evaluation (real_text R) (clock E2) db1 usr i2 t2 sc2 rv2 = Inr db2"
    by blast
  from insert_evaluation_Inr [OF ins1] obtain r1 v1 w1 where
    r1: "rows db1 = rows db @ [r1]" "seq db1 = next_id db" "col_id r1 = next_id db"
      "col_user r1 = usr"
      "bind_param i1 = Inr v1" "col_article_id r1 = text_affinity (real_text R) v1"
      "bind_param t1 = Inr w1" "col_title r1 = text_affinity (real_text R) w1"
    by blast
  from insert_evaluation_Inr [OF ins2] obtain r2 v2 w2 where
    r2: "rows db2 = rows db1 @ [r2]" "col_id r2 = next_id db1" "col_user r2 = usr"
      "bind_param i2 = Inr v2" "col_article_id r2 = text_affinity (real_text R) v2"
      "bind_param t2 = Inr w2" "col_title r2 = text_affinity (real_text R) w2"
    by blast
  have "col_id r1 < col_id r2" using next_id_seq [of db1] r1(2,3) r2(2) by simp
  moreover have "\<forall>r \<in> set (rows db). col_id r < col_id r1"
    using next_id_fresh [of _ db] r1(3) by simp
  moreover have "col_article_id r1 = col_article_id r2 \<and> col_title r1 = col_title r2"
    if "qiita E1 article_id = qiita E2 article_id"
  proof -
    from that q1 q2 have "a1 = a2" by simp
    with g1 g2 have "i1 = i2" "t1 = t2" by simp_all
    with r1 r2 show ?thesis by simp
  qed
  moreover have "rows db2 = rows db @ [r1, r2]" using r1(1) r2(1) by simp
  ultimately show ?thesis using r1(4) r2(3) by blast
qed

theorem evaluate_twice_two_rows_witness:
  "evaluate sample_runtime (sample_env 100) init_db sample_id sample_user =
     (Evaluation sample_user (Some 85) sample_review, \<lparr>rows = [sample_row 1 100], seq = 1\<rparr>) \<and>
   evaluate sample_runtime (sample_env 200) \<lparr>rows = [sample_row 1 100], seq = 1\<rparr> sample_id
     sample_user =
     (Evaluation sample_user (Some 85) sample_review,
      \<lparr>rows = [sample_row 1 100, sample_row 2 200], seq = 2\<rparr>) \<and>
   (\<exists>r1 r2. [sample_row 1 100, sample_row 2 200] = [r1, r2] \<and> col_id r1 < col_id r2 \<and>
      col_article_id r1 = col_article_id r2)"
proof -
  have q: "qiita (sample_env 100) sample_id = qiita (sample_env 200) sample_id"
    by (simp add: sample_env_def quiet_env_def)
  from evaluate_twice_two_rows [OF sample_evaluate_first sample_evaluate_second] q
  have "\<exists>r1 r2. [sample_row 1 100, sample_row 2 200] = [r1, r2] \<and> col_id r1 < col_id r2 \<and>
      col_article_id r1 = col_article_id r2"
    by (simp add: init_db_def)
  with sample_evaluate_first sample_evaluate_second show ?thesis by blast
qed

text \<open>
  \<^bold>\<open>C9.\<close> When the content API answers with status 200 and a body whose JSON value is
  falsy (\<open>null\<close>, \<open>false\<close>, a zero, an empty string, list or object), \<open>evaluate\<close> does
  what it does for an article that was not found: the result is the one it would give for
  any status other than 200, namely the article message (the generic one if reading the
  history had already failed) and the unchanged store.
\<close>

theorem evaluate_falsy_body:
  assumes "qiita E article_id = Response 200 (Parsed v)" and "\<not> truthy v"
  shows "evaluate R E db article_id usr =
           (Error (if select_fails E then unexpected_error else article_error), db) \<and>
         (\<forall>status_code b. status_code \<noteq> 200 \<longrightarrow>
            evaluate R E db article_id usr =
            evaluate R (E\<lparr>qiita := \<lambda>a. Response status_code b\<rparr>) db article_id usr)"
proof -
  have "get_qiita_article (qiita E) article_id = Inr (Some v)"
    using assms(1) by (simp add: get_qiita_article_def)
  then have e: "evaluate R E db article_id usr =
      (Error (if select_fails E then unexpected_error else article_error), db)"
    by (rule evaluate_not_found) (simp add: assms(2))
  have "evaluate R (E\<lparr>qiita := \<lambda>a. Response status_code b\<rparr>) db article_id usr =
      (Error (if select_fails E then unexpected_error else article_error), db)"
    if "status_code \<noteq> 200" for status_code b
  proof -
    have "get_qiita_article (qiita (E\<lparr>qiita := \<lambda>a. Response status_code b\<rparr>)) article_id = Inr None"
      using that by (simp add: get_qiita_article_def)
    from evaluate_not_found [OF this, of R db usr] show ?thesis by simp
  qed
  with e show ?thesis by simp
qed

theorem evaluate_falsy_body_witness:
  "qiita (quiet_env (Response 200 (Parsed (JObj []))) ApiError 100) sample_id =
     Response 200 (Parsed (JObj [])) \<and>
   \<not> truthy (JObj []) \<and> \<not> truthy (JArr []) \<and> \<not> truthy JNull \<and>
   evaluate sample_runtime (quiet_env (Response 200 (Parsed (JObj []))) ApiError 100) init_db
     sample_id sample_user = (Error article_error, init_db)"
proof -
  have q: "qiita (quiet_env (Response 200 (Parsed (JObj []))) ApiError 100) sample_id =
     Response 200 (Parsed (JObj []))"
    by (simp add: quiet_env_def)
  have t: "\<not> truthy (JObj [])" by simp
  from evaluate_falsy_body [OF q t, of sample_runtime init_db sample_user]
  have "evaluate sample_runtime (quiet_env (Response 200 (Parsed (JObj []))) ApiError 100) init_db
     sample_id sample_user = (Error article_error, init_db)"
    by (simp add: quiet_env_def)
  with q t show ?thesis by simp
qed

text \<open>
  \<^bold>\<open>C10.\<close> With a digit table whose values are 0 to 9 and in which the score unit is no
  digit (both hold for Unicode): an extracted score lies between 0 and 999; and where the
  text before a run of digits has no match and the run has four or more digits (three are
  enough) and is followed by the score unit, the score is the value of the last three
  digits of the run.
\<close>

theorem extract_score_at_most_three_digits:
  assumes "\<forall>c d. dv c = Some d \<longrightarrow> d \<le> 9" and "dv score_unit = None"
  shows "(extract_score dv s = Inr (Some n) \<longrightarrow> 0 \<le> n \<and> n \<le> 999) \<and>
         (re_search dv pre = None \<and> (\<forall>c \<in> set ds. is_digit dv c) \<and> 3 \<le> length ds \<longrightarrow>
            extract_score dv (pre @ ds @ score_unit # post) =
              Inr (Some (digits_value dv (drop (length ds - 3) ds))))"
  using extract_score_range [OF assms(1)] extract_score_last_three [of dv, OF assms(2)] by blast

theorem extract_score_at_most_three_digits_witness:
  "ascii_digits score_unit = None \<and> re_search ascii_digits [97] = None \<and>
   list_all (is_digit ascii_digits) [49, 50, 51, 52] \<and>
   extract_score ascii_digits ([97] @ [49, 50, 51, 52] @ score_unit # [98]) = Inr (Some 234) \<and>
   (0::int) \<le> 234 \<and> (234::int) \<le> 999"
proof -
  have t: "\<forall>c d. ascii_digits c = Some d \<longrightarrow> d \<le> 9"
    by (auto simp: ascii_digits_def split: if_splits)
  have u: "ascii_digits score_unit = None" by (simp add: ascii_digits_def score_unit_def)
  have p: "re_search ascii_digits [97] = None"
    by (simp add: match_at_def is_digit_def ascii_digits_def numeral_3_eq_3)
  have d: "\<forall>c \<in> set [49, 50, 51, 52]. is_digit ascii_digits c"
    by (simp add: is_digit_def ascii_digits_def)
  have v: "digits_value ascii_digits (drop (length [49, 50, 51, 52::nat] - 3) [49, 50, 51, 52]) = 234"
    by (simp add: digits_value_def ascii_digits_def)
  from extract_score_at_most_three_digits [OF t u, of "[97] @ [49, 50, 51, 52] @ score_unit # [98]" 234
      "[97]" "[49, 50, 51, 52]" "[98]"] p d v
  have "extract_score ascii_digits ([97] @ [49, 50, 51, 52] @ score_unit # [98]) = Inr (Some 234) \<and>
      (0::int) \<le> 234 \<and> (234::int) \<le> 999"
    by simp
  moreover have "list_all (is_digit ascii_digits) [49, 50, 51, 52]"
    by (simp add: is_digit_def ascii_digits_def)
  ultimately show ?thesis using u p by blast
qed

end
